theory Spec2Isabelle
  imports Complex_Main "HOL-Library.Multiset"
begin

section \<open>Floating-point values and errors\<close>

text \<open>
  A Python or numpy float is modelled as a real number or NaN: \<open>None\<close> is NaN (pandas'
  "absent" value), \<open>Some x\<close> is the number \<open>x\<close>. Arithmetic is the arithmetic of the reals
  with NaN propagating through every operation; the rounding of double precision,
  overflow and the infinities are not part of these operations. Comparisons with NaN are
  false, as in IEEE 754.

  The code computes in double precision. The properties below are stated in forms that
  rounding keeps: bounds between terms built by the same operations (rounding is
  monotone), values that the doubles compute exactly, and the formula that a loop
  computes, its sums read in the order of the loop. An equation between two differently
  associated ways of computing the same real number, and a strict inequality that
  rounding can close, hold of exact arithmetic and not of the code, and are not stated;
  where such an equation is at stake, the rounding is written out with \<open>round_double\<close>
  (next section).
\<close>

type_synonym pyfloat = "real option"

datatype error = ZeroDivisionError | ValueError

definition fadd :: "pyfloat \<Rightarrow> pyfloat \<Rightarrow> pyfloat" where
  "fadd a b = (case a of None \<Rightarrow> None | Some x \<Rightarrow> (case b of None \<Rightarrow> None | Some y \<Rightarrow> Some (x + y)))"

definition fsub :: "pyfloat \<Rightarrow> pyfloat \<Rightarrow> pyfloat" where
  "fsub a b = (case a of None \<Rightarrow> None | Some x \<Rightarrow> (case b of None \<Rightarrow> None | Some y \<Rightarrow> Some (x - y)))"

definition fmul :: "pyfloat \<Rightarrow> pyfloat \<Rightarrow> pyfloat" where
  "fmul a b = (case a of None \<Rightarrow> None | Some x \<Rightarrow> (case b of None \<Rightarrow> None | Some y \<Rightarrow> Some (x * y)))"

text \<open>
  Division of floats. Every division of the modelled code by a possibly zero divisor is
  guarded by a test in the source (or raises, see \<open>calculate_composite_score\<close>), so the
  zero-divisor case is never reached; it is NaN here.
\<close>

definition fdiv :: "pyfloat \<Rightarrow> pyfloat \<Rightarrow> pyfloat" where
  "fdiv a b = (case a of None \<Rightarrow> None | Some x \<Rightarrow>
     (case b of None \<Rightarrow> None | Some y \<Rightarrow> if y = 0 then None else Some (x / y)))"

definition flt :: "pyfloat \<Rightarrow> pyfloat \<Rightarrow> bool" where
  "flt a b = (case a of None \<Rightarrow> False | Some x \<Rightarrow> (case b of None \<Rightarrow> False | Some y \<Rightarrow> x < y))"

definition notna :: "pyfloat \<Rightarrow> bool" where
  "notna v = (v \<noteq> None)"

definition in_unit :: "pyfloat \<Rightarrow> bool" where
  "in_unit v = (case v of None \<Rightarrow> False | Some x \<Rightarrow> 0 \<le> x \<and> x \<le> 1)"

section \<open>Double-precision rounding\<close>

text \<open>
  Where a claim turns on the rounding of a single arithmetic operation, the operation is
  followed by \<open>round_double\<close>: IEEE 754 binary64 rounding to nearest, ties to even. A
  number \<open>x \<noteq> 0\<close> with \<open>2 ^ k \<le> \<bar>x\<bar> < 2 ^ (k + 1)\<close> is rounded to the nearest multiple of
  \<open>2 ^ (k - 52)\<close>, of two nearest ones to the even multiple. The exponent range is not
  bounded: overflow and the subnormal numbers are left out; the numbers that the examples
  round lie between \<open>1 / 2 ^ 60\<close> and 4, far inside the exponent range of a double.
  \<open>unit_roundoff\<close> bounds the relative error of one rounding.
\<close>

definition round_half_even :: "real \<Rightarrow> int" where
  "round_half_even x =
     (let f = \<lfloor>x\<rfloor>
      in if x - of_int f < 1/2 then f
         else if 1/2 < x - of_int f then f + 1
         else if even f then f else f + 1)"

definition round_double :: "real \<Rightarrow> real" where
  "round_double x =
     (if x = 0 then 0
      else (let e = \<lfloor>log 2 \<bar>x\<bar>\<rfloor> - 52
            in of_int (round_half_even (x / 2 powr of_int e)) * 2 powr of_int e))"

definition unit_roundoff :: real where
  "unit_roundoff = 1 / 2 ^ 53"

section \<open>Metric catalog (config.py)\<close>

definition REQUIRED_METRICS :: "string list" where
  "REQUIRED_METRICS =
     [''r_i_docking_score'', ''r_i_glide_gscore'', ''r_i_glide_emodel'', ''r_i_glide_energy'']"

definition OPTIONAL_METRICS :: "string list" where
  "OPTIONAL_METRICS =
     [''r_i_glide_lipo'', ''r_i_glide_hbond'', ''r_i_glide_metal'', ''r_i_glide_rewards'',
      ''r_i_glide_evdw'', ''r_i_glide_ecoul'', ''r_i_glide_erotb'', ''r_i_glide_esite'',
      ''r_i_glide_einternal'']"

definition DOCKING_METRICS :: "string list" where
  "DOCKING_METRICS = [''r_i_docking_score'', ''r_i_glide_gscore'']"

definition ENERGY_METRICS :: "string list" where
  "ENERGY_METRICS = [''r_i_glide_emodel'', ''r_i_glide_energy'']"

section \<open>Rows and the composite scorer (core/metrics.py)\<close>

text \<open>
  A row of the table, as \<open>iterrows\<close> hands it to the scorer: the identity columns and the
  numeric cells by column label. \<open>cells r c = None\<close> means that the row has no column
  \<open>c\<close>; \<open>cells r c = Some None\<close> that the column is there and the cell is NaN.
\<close>

record row =
  title :: int
  lignum :: int
  protein_name :: string
  cells :: "string \<rightharpoonup> pyfloat"

definition get_normalized_column_name :: "string \<Rightarrow> string" where
  "get_normalized_column_name metric = ''normalized_'' @ metric"

definition col_in_row :: "string \<Rightarrow> row \<Rightarrow> bool" where
  "col_in_row c r = (cells r c \<noteq> None)"

definition get_normalized_value :: "row \<Rightarrow> string \<Rightarrow> pyfloat" where
  "get_normalized_value r metric =
     (case cells r (get_normalized_column_name metric) of
        Some v \<Rightarrow> v
      | None \<Rightarrow> Some 1)"

definition weight_get :: "(string \<rightharpoonup> real) \<Rightarrow> string \<Rightarrow> real" where
  "weight_get weights metric = (case weights metric of Some w \<Rightarrow> w | None \<Rightarrow> 1)"

text \<open>The loop of \<open>calculate_weighted_score\<close> over the valid metrics, with its two accumulators.\<close>

fun weighted_loop :: "row \<Rightarrow> (string \<rightharpoonup> real) \<Rightarrow> string list \<Rightarrow> pyfloat \<times> real \<Rightarrow> pyfloat \<times> real" where
  "weighted_loop r weights [] acc = acc"
| "weighted_loop r weights (metric # ms) (weighted_sum, total_weight) =
     (let weight = weight_get weights metric;
          normalized_value = get_normalized_value r metric
      in weighted_loop r weights ms
           (fadd weighted_sum (fmul (Some weight) normalized_value), total_weight + weight))"

definition calculate_weighted_score :: "row \<Rightarrow> string list \<Rightarrow> (string \<rightharpoonup> real) \<Rightarrow> pyfloat" where
  "calculate_weighted_score r metrics weights =
     (let valid_metrics = filter (\<lambda>m. col_in_row (get_normalized_column_name m) r) metrics
      in if valid_metrics = [] then Some 1
         else (case weighted_loop r weights valid_metrics (Some 0, 0) of
                 (weighted_sum, total_weight) \<Rightarrow>
                   if total_weight = 0 then Some 1
                   else fdiv weighted_sum (Some total_weight)))"

definition calculate_docking_score :: "row \<Rightarrow> (string \<rightharpoonup> real) \<Rightarrow> pyfloat" where
  "calculate_docking_score r weights = calculate_weighted_score r DOCKING_METRICS weights"

definition calculate_energy_score :: "row \<Rightarrow> (string \<rightharpoonup> real) \<Rightarrow> pyfloat" where
  "calculate_energy_score r weights = calculate_weighted_score r ENERGY_METRICS weights"

definition calculate_optional_score :: "row \<Rightarrow> string list \<Rightarrow> (string \<rightharpoonup> real) \<Rightarrow> pyfloat \<times> bool" where
  "calculate_optional_score r selected_metrics weights =
     (let optional_metrics = filter (\<lambda>m. m \<in> set OPTIONAL_METRICS) selected_metrics
      in if optional_metrics = [] then (Some 0, False)
         else (calculate_weighted_score r optional_metrics weights, True))"

text \<open>
  The category weights are Python floats, so the division of the redistribution branch
  raises ZeroDivisionError when they sum to zero.
\<close>

definition calculate_composite_score ::
  "row \<Rightarrow> string list \<Rightarrow> (string \<rightharpoonup> real) \<Rightarrow> real \<Rightarrow> real \<Rightarrow> real \<Rightarrow> error + (pyfloat \<times> pyfloat \<times> pyfloat)" where
  "calculate_composite_score r selected_metrics weights docking_weight energy_weight optional_weight =
     (let docking_score = calculate_docking_score r weights;
          energy_score = calculate_energy_score r weights
      in case calculate_optional_score r selected_metrics weights of
           (optional_score, has_optional) \<Rightarrow>
             if has_optional then
               Inr (fadd (fadd (fmul (Some docking_weight) docking_score)
                               (fmul (Some energy_weight) energy_score))
                         (fmul (Some optional_weight) optional_score),
                    docking_score, energy_score)
             else if docking_weight + energy_weight = 0 then Inl ZeroDivisionError
             else
               (let adjusted_docking_weight = docking_weight / (docking_weight + energy_weight);
                    adjusted_energy_weight = energy_weight / (docking_weight + energy_weight)
                in Inr (fadd (fmul (Some adjusted_docking_weight) docking_score)
                             (fmul (Some adjusted_energy_weight) energy_score),
                        docking_score, energy_score)))"

text \<open>
  The total score of the redistribution branch in double precision: the expression of
  \<open>calculate_composite_score\<close> with the rounding of each of its operations written out,
  for weights and category scores that are numbers.
\<close>

definition redistributed_total_score :: "real \<Rightarrow> real \<Rightarrow> real \<Rightarrow> real \<Rightarrow> real" where
  "redistributed_total_score docking_weight energy_weight docking_score energy_score =
     (let adjusted_docking_weight =
            round_double (docking_weight / round_double (docking_weight + energy_weight));
          adjusted_energy_weight =
            round_double (energy_weight / round_double (docking_weight + energy_weight))
      in round_double (round_double (adjusted_docking_weight * docking_score)
                       + round_double (adjusted_energy_weight * energy_score)))"

section \<open>The normalizer (data/processor.py)\<close>

text \<open>
  A pandas Series of metric values is a list of floats, NaN for an absent value.
  \<open>dropna\<close> keeps the numbers; \<open>mean\<close> and \<open>std\<close> are pandas' \<open>Series.mean\<close> and
  \<open>Series.std\<close> (the sample standard deviation, \<open>ddof = 1\<close>), which is NaN for fewer
  than two values. For two values or more they are the exact mean and deviation; pandas
  rounds, so that a group of equal values can have a deviation that is tiny and not 0.0,
  and \<open>1 / (1 + exp (- z))\<close> is exactly 1.0 in doubles from \<open>z\<close> about 36.7 on. The
  properties of the z-score branch are therefore stated of \<open>z_score_values\<close>, for every
  mean and deviation, and the closed interval [0,1] bounds the logistic values.
\<close>

definition dropna :: "pyfloat list \<Rightarrow> real list" where
  "dropna values = map the (filter notna values)"

definition mean :: "real list \<Rightarrow> real" where
  "mean xs = sum_list xs / real (length xs)"

definition std :: "real list \<Rightarrow> pyfloat" where
  "std xs = (if length xs < 2 then None
             else Some (sqrt ((\<Sum>x\<leftarrow>xs. (x - mean xs)\<^sup>2) / real (length xs - 1))))"

definition fillna :: "real \<Rightarrow> pyfloat list \<Rightarrow> pyfloat list" where
  "fillna d values = map (\<lambda>v. case v of None \<Rightarrow> Some d | Some x \<Rightarrow> Some x) values"

definition degenerate :: "pyfloat list \<Rightarrow> pyfloat list" where
  "degenerate values = map (\<lambda>v. if notna v then Some 0 else Some 1) values"

definition logistic :: "real \<Rightarrow> real" where
  "logistic z = 1 / (1 + exp (- z))"

function normalize_metric :: "pyfloat list \<Rightarrow> string \<Rightarrow> pyfloat list" where
  "normalize_metric values method =
     (let valid_values = dropna values
      in if valid_values = [] then replicate (length values) (Some 1)
         else if method = ''min-max'' then
           (let min_val = Min (set valid_values);
                max_val = Max (set valid_values)
            in if max_val = min_val then degenerate values
               else fillna 1
                      (map (\<lambda>v. fdiv (fsub v (Some min_val)) (Some (max_val - min_val))) values))
         else if method = ''z-score'' then
           (let mean_val = mean valid_values;
                std_val = std valid_values
            in if std_val = Some 0 then degenerate values
               else map (map_option logistic)
                      (fillna 3 (map (\<lambda>v. fdiv (fsub v (Some mean_val)) std_val) values)))
         else normalize_metric values ''min-max'')"
  by pat_completeness auto
termination
  by (relation "measure (\<lambda>(values, method). if method = ''min-max'' then 0 else 1)") auto

declare normalize_metric.simps [simp del]



text \<open>
  A DataFrame is the list of its rows, every row carrying the same columns.
  \<open>has_column\<close> is \<open>metric in data.columns\<close>, \<open>cell\<close> reads a cell, \<open>group_keys\<close> and
  \<open>group_index\<close> are \<open>groupby('protein_name')\<close>: the keys and the row positions of a
  group. pandas goes through the groups in sorted key order; the groups are disjoint and an
  assignment writes the rows of its own group only, so the order does not change the
  result, and the model takes the keys in order of first appearance.
\<close>

definition has_column :: "string \<Rightarrow> row list \<Rightarrow> bool" where
  "has_column c data = (data \<noteq> [] \<and> list_all (col_in_row c) data)"

definition cell :: "row \<Rightarrow> string \<Rightarrow> pyfloat" where
  "cell r c = (case cells r c of Some v \<Rightarrow> v | None \<Rightarrow> None)"

definition group_keys :: "row list \<Rightarrow> string list" where
  "group_keys data = rev (remdups (rev (map protein_name data)))"

definition group_index :: "row list \<Rightarrow> string \<Rightarrow> nat list" where
  "group_index data protein = filter (\<lambda>i. protein_name (data ! i) = protein) [0..<length data]"

text \<open>
  \<open>normalized_data.loc[idx, column] = values\<close>: the rows at \<open>idx\<close> get the values; when the
  column is new, pandas creates it and every other row holds NaN there.
\<close>

definition loc_assign :: "nat list \<Rightarrow> string \<Rightarrow> pyfloat list \<Rightarrow> row list \<Rightarrow> row list" where
  "loc_assign idx column values rows =
     map (\<lambda>(i, r). case map_of (zip idx values) i of
                      Some v \<Rightarrow> r\<lparr>cells := (cells r)(column \<mapsto> v)\<rparr>
                    | None \<Rightarrow> if col_in_row column r then r
                              else r\<lparr>cells := (cells r)(column \<mapsto> None)\<rparr>)
         (enumerate 0 rows)"

definition normalize_group :: "row list \<Rightarrow> string \<Rightarrow> string \<Rightarrow> string \<Rightarrow> row list \<Rightarrow> row list" where
  "normalize_group data method metric protein normalized_data =
     (let idx = group_index data protein;
          group_metric = map (\<lambda>i. cell (data ! i) metric) idx
      in if list_ex notna group_metric then
           loc_assign idx (''normalized_'' @ metric) (normalize_metric group_metric method)
             normalized_data
         else normalized_data)"

definition normalize_column :: "row list \<Rightarrow> string \<Rightarrow> string \<Rightarrow> row list \<Rightarrow> row list" where
  "normalize_column data method metric normalized_data =
     (if has_column metric data
      then fold (normalize_group data method metric) (group_keys data) normalized_data
      else normalized_data)"

definition normalize_data :: "row list \<Rightarrow> string \<Rightarrow> row list" where
  "normalize_data data method =
     (if data = [] then []
      else fold (normalize_column data method) (REQUIRED_METRICS @ OPTIONAL_METRICS) data)"

section \<open>Configuration (config.py)\<close>

text \<open>
  The global configuration object, restricted to its float-valued entries: a dict of
  sections, each a dict of keys. \<open>config_get\<close> is \<open>Config.get(section, key)\<close>, which
  returns Python's \<open>None\<close> for a missing section or key; \<open>py_or v d\<close> is \<open>v or d\<close>, which
  takes \<open>d\<close> when \<open>v\<close> is falsy (\<open>None\<close> or \<open>0.0\<close>).
\<close>

type_synonym config = "string \<rightharpoonup> (string \<rightharpoonup> real)"

definition config_get :: "config \<Rightarrow> string \<Rightarrow> string \<Rightarrow> real option" where
  "config_get cfg section key =
     (case cfg section of None \<Rightarrow> None | Some sec \<Rightarrow> sec key)"

definition py_or :: "real option \<Rightarrow> real \<Rightarrow> real" where
  "py_or v d = (case v of None \<Rightarrow> d | Some x \<Rightarrow> if x = 0 then d else x)"

definition DEFAULT_CONFIG :: config where
  "DEFAULT_CONFIG =
     [''scoring'' \<mapsto> [''docking_weight'' \<mapsto> 0.4, ''energy_weight'' \<mapsto> 0.4,
                      ''optional_weight'' \<mapsto> 0.2]]"

section \<open>The scorer (core/scorer.py)\<close>

text \<open>The loop of \<open>score_data\<close> over the rows; an exception of a row ends it.\<close>

fun score_rows ::
  "string list \<Rightarrow> (string \<rightharpoonup> real) \<Rightarrow> real \<Rightarrow> real \<Rightarrow> real \<Rightarrow> row list
     \<Rightarrow> error + (pyfloat \<times> pyfloat \<times> pyfloat) list" where
  "score_rows selected_metrics weights dw ew ow [] = Inr []"
| "score_rows selected_metrics weights dw ew ow (r # rs) =
     (case calculate_composite_score r selected_metrics weights dw ew ow of
        Inl err \<Rightarrow> Inl err
      | Inr s \<Rightarrow>
          (case score_rows selected_metrics weights dw ew ow rs of
             Inl err \<Rightarrow> Inl err
           | Inr scores \<Rightarrow> Inr (s # scores)))"

definition add_score_columns :: "row \<Rightarrow> pyfloat \<times> pyfloat \<times> pyfloat \<Rightarrow> row" where
  "add_score_columns r s =
     (case s of (total_s, docking_s, energy_s) \<Rightarrow>
        r\<lparr>cells := (cells r)(''total_score'' \<mapsto> total_s, ''docking_score'' \<mapsto> docking_s,
                              ''energy_score'' \<mapsto> energy_s)\<rparr>)"

definition score_data :: "config \<Rightarrow> row list \<Rightarrow> string list \<Rightarrow> (string \<rightharpoonup> real) \<Rightarrow> error + row list" where
  "score_data cfg data selected_metrics weights =
     (if data = [] then Inr []
      else
        (let docking_weight = py_or (config_get cfg ''scoring'' ''docking_weight'') 0.4;
             energy_weight = py_or (config_get cfg ''scoring'' ''energy_weight'') 0.4;
             optional_weight = py_or (config_get cfg ''scoring'' ''optional_weight'') 0.2
         in case score_rows selected_metrics weights docking_weight energy_weight optional_weight data of
              Inl err \<Rightarrow> Inl err
            | Inr scores \<Rightarrow> Inr (map2 add_score_columns data scores)))"

text \<open>
  A Python dict keeps its keys in insertion order, and storing under a key that is already
  there replaces the value in place: an association list with \<open>dict_set\<close>.
\<close>

fun dict_set :: "'k \<Rightarrow> 'v \<Rightarrow> ('k \<times> 'v) list \<Rightarrow> ('k \<times> 'v) list" where
  "dict_set k v [] = [(k, v)]"
| "dict_set k v ((k', v') # kvs) =
     (if k' = k then (k, v) # kvs else (k', v') # dict_set k v kvs)"

record pair_score =
  total_score :: pyfloat
  docking_score :: pyfloat
  energy_score :: pyfloat
  raw_data :: row

type_synonym conformations = "((int \<times> int) \<times> (string \<times> pair_score) list) list"

fun pairs_loop ::
  "string list \<Rightarrow> (string \<rightharpoonup> real) \<Rightarrow> real \<Rightarrow> real \<Rightarrow> real \<Rightarrow> row list
     \<Rightarrow> conformations \<Rightarrow> error + conformations" where
  "pairs_loop selected_metrics weights dw ew ow [] conformations = Inr conformations"
| "pairs_loop selected_metrics weights dw ew ow (r # rs) conformations =
     (let conf_id = (title r, lignum r);
          protein = protein_name r;
          conformations1 = (if map_of conformations conf_id = None
                            then dict_set conf_id [] conformations else conformations)
      in case calculate_composite_score r selected_metrics weights dw ew ow of
           Inl err \<Rightarrow> Inl err
         | Inr (total_s, docking_s, energy_s) \<Rightarrow>
             pairs_loop selected_metrics weights dw ew ow rs
               (dict_set conf_id
                  (dict_set protein
                     \<lparr>total_score = total_s, docking_score = docking_s, energy_score = energy_s,
                      raw_data = r\<rparr>
                     (case map_of conformations1 conf_id of Some inner \<Rightarrow> inner | None \<Rightarrow> []))
                  conformations1))"

definition score_conformation_protein_pairs ::
  "config \<Rightarrow> row list \<Rightarrow> string list \<Rightarrow> (string \<rightharpoonup> real) \<Rightarrow> error + conformations" where
  "score_conformation_protein_pairs cfg data selected_metrics weights =
     (if data = [] then Inr []
      else
        (let docking_weight = py_or (config_get cfg ''scoring'' ''docking_weight'') 0.4;
             energy_weight = py_or (config_get cfg ''scoring'' ''energy_weight'') 0.4;
             optional_weight = py_or (config_get cfg ''scoring'' ''optional_weight'') 0.2
         in pairs_loop selected_metrics weights docking_weight energy_weight optional_weight data []))"

section \<open>The ranker (core/ranker.py)\<close>

text \<open>
  Python's \<open>min(items, key=...)\<close> scans from the left and replaces the best item only by
  one whose key is strictly less; it raises ValueError on an empty sequence.
\<close>

fun min_loop :: "('a \<Rightarrow> pyfloat) \<Rightarrow> 'a \<Rightarrow> 'a list \<Rightarrow> 'a" where
  "min_loop key best [] = best"
| "min_loop key best (x # xs) = min_loop key (if flt (key x) (key best) then x else best) xs"

definition py_min :: "('a \<Rightarrow> pyfloat) \<Rightarrow> 'a list \<Rightarrow> error + 'a" where
  "py_min key items = (case items of [] \<Rightarrow> Inl ValueError | x # xs \<Rightarrow> Inr (min_loop key x xs))"

text \<open>
  \<open>list.sort(key=...)\<close> is a stable sort that compares keys with \<open><\<close> only. For keys
  that \<open><\<close> orders totally every stable sort gives the same list, and the model is the
  stable insertion sort. Keys holding NaN are not totally ordered, and the result of
  \<open>list.sort\<close> then depends on how it merges; the model is used with such keys only for a
  list in which no element is less than its predecessor: \<open>list.sort\<close> takes that list for
  one ascending run and leaves it as it is, and so does the insertion sort
  (\<open>py_sort_run\<close> below).
\<close>

fun py_insort :: "('k \<Rightarrow> 'k \<Rightarrow> bool) \<Rightarrow> ('a \<Rightarrow> 'k) \<Rightarrow> 'a \<Rightarrow> 'a list \<Rightarrow> 'a list" where
  "py_insort lt key x [] = [x]"
| "py_insort lt key x (y # ys) =
     (if lt (key y) (key x) then y # py_insort lt key x ys else x # y # ys)"

definition py_sort :: "('k \<Rightarrow> 'k \<Rightarrow> bool) \<Rightarrow> ('a \<Rightarrow> 'k) \<Rightarrow> 'a list \<Rightarrow> 'a list" where
  "py_sort lt key xs = foldr (py_insort lt key) xs []"

record ranking_entry = pair_score +
  conf_id :: "int \<times> int"
  best_protein :: string

definition make_entry :: "(int \<times> int) \<Rightarrow> string \<times> pair_score \<Rightarrow> ranking_entry" where
  "make_entry cid best =
     \<lparr>total_score = total_score (snd best), docking_score = docking_score (snd best),
      energy_score = energy_score (snd best), raw_data = raw_data (snd best),
      conf_id = cid, best_protein = fst best\<rparr>"

text \<open>The loop of \<open>rank_conformations\<close> over the identities: the best protein of each.\<close>

fun best_loop :: "conformations \<Rightarrow> error + ranking_entry list" where
  "best_loop [] = Inr []"
| "best_loop ((cid, proteins) # rest) =
     (case py_min (\<lambda>x. total_score (snd x)) proteins of
        Inl err \<Rightarrow> Inl err
      | Inr best \<Rightarrow>
          (case best_loop rest of
             Inl err \<Rightarrow> Inl err
           | Inr result \<Rightarrow> Inr (make_entry cid best # result)))"

definition rank_conformations ::
  "config \<Rightarrow> row list \<Rightarrow> string list \<Rightarrow> (string \<rightharpoonup> real) \<Rightarrow> error + ranking_entry list" where
  "rank_conformations cfg data selected_metrics weights =
     (if data = [] then Inr []
      else case score_conformation_protein_pairs cfg data selected_metrics weights of
             Inl err \<Rightarrow> Inl err
           | Inr conformations \<Rightarrow>
               if conformations = [] then Inr []
               else (case best_loop conformations of
                       Inl err \<Rightarrow> Inl err
                     | Inr result \<Rightarrow> Inr (py_sort flt total_score result)))"

record protein_stat =
  stat_count :: nat
  total_scores :: "pyfloat list"
  docking_scores :: "pyfloat list"
  energy_scores :: "pyfloat list"

text \<open>The first loop of \<open>rank_proteins\<close>: the statistics of each winning protein.\<close>

fun stats_loop :: "ranking_entry list \<Rightarrow> (string \<times> protein_stat) list \<Rightarrow> (string \<times> protein_stat) list" where
  "stats_loop [] protein_stats = protein_stats"
| "stats_loop (conf # confs) protein_stats =
     (let protein = best_protein conf;
          stats = (case map_of protein_stats protein of
                     None \<Rightarrow> \<lparr>stat_count = 0, total_scores = [], docking_scores = [],
                              energy_scores = []\<rparr>
                   | Some st \<Rightarrow> st)
      in stats_loop confs
           (dict_set protein
              \<lparr>stat_count = stat_count stats + 1,
               total_scores = total_scores stats @ [total_score conf],
               docking_scores = docking_scores stats @ [docking_score conf],
               energy_scores = energy_scores stats @ [energy_score conf]\<rparr>
              protein_stats))"

definition np_mean :: "pyfloat list \<Rightarrow> pyfloat" where
  "np_mean xs = fdiv (foldl fadd (Some 0) xs) (Some (real (length xs)))"

record protein_entry =
  ranked_protein_name :: string
  best_count :: nat
  avg_total_score :: pyfloat
  avg_docking_score :: pyfloat
  avg_energy_score :: pyfloat

definition make_protein_entry :: "string \<times> protein_stat \<Rightarrow> protein_entry" where
  "make_protein_entry ps =
     \<lparr>ranked_protein_name = fst ps, best_count = stat_count (snd ps),
      avg_total_score = np_mean (total_scores (snd ps)),
      avg_docking_score = np_mean (docking_scores (snd ps)),
      avg_energy_score = np_mean (energy_scores (snd ps))\<rparr>"

text \<open>
  The sort key of \<open>rank_proteins\<close> is the tuple \<open>(-best_count, avg_total_score)\<close>; Python
  compares tuples by the first component in which they differ.
\<close>

definition protein_key :: "protein_entry \<Rightarrow> int \<times> pyfloat" where
  "protein_key x = (- int (best_count x), avg_total_score x)"

definition tuple_lt :: "int \<times> pyfloat \<Rightarrow> int \<times> pyfloat \<Rightarrow> bool" where
  "tuple_lt a b = (if fst a \<noteq> fst b then fst a < fst b else flt (snd a) (snd b))"

definition rank_proteins :: "ranking_entry list \<Rightarrow> protein_entry list" where
  "rank_proteins conformation_ranking =
     (if conformation_ranking = [] then []
      else py_sort tuple_lt protein_key
             (map make_protein_entry (stats_loop conformation_ranking [])))"

section \<open>The category score as the specification words it\<close>

text \<open>
  \<open>category_score_spec\<close> follows the specification's sentence on the category score and
  not the code: the metrics of \<open>S\<close> whose normalized column is in the row, the weighted
  mean of their normalized values with weight 1.0 for a metric absent from the weight
  mapping, and 1.0 when no metric is left or the weights sum to zero. A NaN among the
  values makes the mean NaN.
\<close>

definition num :: "pyfloat \<Rightarrow> real" where
  "num v = (case v of Some x \<Rightarrow> x | None \<Rightarrow> 0)"


section \<open>The reweighting identity as the specification words it\<close>


section \<open>The ranking as the specification words it\<close>

text \<open>
  \<open>first_seen\<close> lists the distinct elements of a list in the order of their first
  appearance. \<open>conformation_id\<close> is the identity of a row; \<open>scored\<close> is the score record
  that the scorer stores for a row, and \<open>pair_of_row\<close> is that record under the category
  weights of the configuration. \<open>inner_dict\<close> is the dict from protein to score record
  that the rows of one identity leave behind: a later row of a protein replaces the
  earlier one, in place.
\<close>

primrec first_seen :: "'a list \<Rightarrow> 'a list" where
  "first_seen [] = []"
| "first_seen (x # xs) = x # removeAll x (first_seen xs)"

definition conformation_id :: "row \<Rightarrow> int \<times> int" where
  "conformation_id r = (title r, lignum r)"

definition scored :: "string list \<Rightarrow> (string \<rightharpoonup> real) \<Rightarrow> real \<Rightarrow> real \<Rightarrow> real \<Rightarrow> row \<Rightarrow> pair_score" where
  "scored sel weights dw ew ow r =
     (case calculate_composite_score r sel weights dw ew ow of
        Inr (t, d, e) \<Rightarrow> \<lparr>total_score = t, docking_score = d, energy_score = e, raw_data = r\<rparr>
      | Inl err \<Rightarrow> \<lparr>total_score = None, docking_score = None, energy_score = None, raw_data = r\<rparr>)"

definition pair_of_row :: "config \<Rightarrow> string list \<Rightarrow> (string \<rightharpoonup> real) \<Rightarrow> row \<Rightarrow> pair_score" where
  "pair_of_row cfg sel weights r =
     scored sel weights
       (py_or (config_get cfg ''scoring'' ''docking_weight'') 0.4)
       (py_or (config_get cfg ''scoring'' ''energy_weight'') 0.4)
       (py_or (config_get cfg ''scoring'' ''optional_weight'') 0.2) r"

definition inner_dict :: "(row \<Rightarrow> pair_score) \<Rightarrow> row list \<Rightarrow> (string \<times> pair_score) list" where
  "inner_dict sc rs = fold (\<lambda>r. dict_set (protein_name r) (sc r)) rs []"

text \<open>
  For the protein ranking: \<open>wins p es\<close> are the entries that protein \<open>p\<close> won, \<open>stat_of\<close>
  their statistics, and \<open>protein_le a b\<close> says that \<open>a\<close> may stand before \<open>b\<close> in the
  ranking: more wins, or as many wins and a mean total score that is no greater.
\<close>

definition wins :: "string \<Rightarrow> ranking_entry list \<Rightarrow> ranking_entry list" where
  "wins p es = filter (\<lambda>e. best_protein e = p) es"

definition stat_of :: "ranking_entry list \<Rightarrow> protein_stat" where
  "stat_of ws = \<lparr>stat_count = length ws, total_scores = map total_score ws,
                 docking_scores = map docking_score ws, energy_scores = map energy_score ws\<rparr>"

definition protein_le :: "protein_entry \<Rightarrow> protein_entry \<Rightarrow> bool" where
  "protein_le a b =
     (best_count b < best_count a
      \<or> (best_count a = best_count b
         \<and> (case avg_total_score a of None \<Rightarrow> False
             | Some x \<Rightarrow> (case avg_total_score b of None \<Rightarrow> False | Some y \<Rightarrow> x \<le> y))))"

section \<open>The configured weights as the specification words them\<close>

text \<open>
  The weight that the scorer is to work with for a key of the section \<open>scoring\<close>: the
  configured value, and the default when the section or the key is missing or the value
  is 0.0.
\<close>

definition configured_weight :: "config \<Rightarrow> string \<Rightarrow> real \<Rightarrow> real" where
  "configured_weight cfg key dflt =
     (case cfg ''scoring'' of
        None \<Rightarrow> dflt
      | Some section \<Rightarrow>
          (case section key of
             None \<Rightarrow> dflt
           | Some x \<Rightarrow> if x = 0 then dflt else x))"

section \<open>Example tables\<close>

text \<open>
  A table of two protein groups with one metric column, \<open>r_i_docking_score\<close>: group A has
  the values 1.0 and 2.0, group B has a single row whose value is absent. \<open>bug_normalized\<close>
  is the table that \<open>normalize_data\<close> makes of it.
\<close>

definition bug_data :: "row list" where
  "bug_data =
     [\<lparr>title = 1, lignum = 1, protein_name = ''A'', cells = [''r_i_docking_score'' \<mapsto> Some 1]\<rparr>,
      \<lparr>title = 2, lignum = 1, protein_name = ''A'', cells = [''r_i_docking_score'' \<mapsto> Some 2]\<rparr>,
      \<lparr>title = 1, lignum = 1, protein_name = ''B'', cells = [''r_i_docking_score'' \<mapsto> None]\<rparr>]"

definition bug_normalized :: "row list" where
  "bug_normalized =
     [\<lparr>title = 1, lignum = 1, protein_name = ''A'',
        cells = [''r_i_docking_score'' \<mapsto> Some 1, ''normalized_r_i_docking_score'' \<mapsto> Some 0]\<rparr>,
      \<lparr>title = 2, lignum = 1, protein_name = ''A'',
        cells = [''r_i_docking_score'' \<mapsto> Some 2, ''normalized_r_i_docking_score'' \<mapsto> Some 1]\<rparr>,
      \<lparr>title = 1, lignum = 1, protein_name = ''B'',
        cells = [''r_i_docking_score'' \<mapsto> None, ''normalized_r_i_docking_score'' \<mapsto> None]\<rparr>]"

text \<open>The row of group B alone: no group has a value of the metric.\<close>

definition lone_data :: "row list" where
  "lone_data =
     [\<lparr>title = 1, lignum = 1, protein_name = ''B'', cells = [''r_i_docking_score'' \<mapsto> None]\<rparr>]"

text \<open>
  Two rows of the same identity (1, 1) and the same protein A, the first with the better
  score; and a list of three ranking entries, two won by protein B and one by protein A.
\<close>

definition dup_row_first :: row where
  "dup_row_first = \<lparr>title = 1, lignum = 1, protein_name = ''A'',
                     cells = [''normalized_r_i_docking_score'' \<mapsto> Some 0]\<rparr>"

definition dup_row_second :: row where
  "dup_row_second = \<lparr>title = 1, lignum = 1, protein_name = ''A'',
                      cells = [''normalized_r_i_docking_score'' \<mapsto> Some 1]\<rparr>"

definition example_ranking :: "ranking_entry list" where
  "example_ranking =
     [\<lparr>total_score = Some (1/5), docking_score = Some (1/5), energy_score = Some (1/5),
       raw_data = dup_row_first, conf_id = (1, 1), best_protein = ''B''\<rparr>,
      \<lparr>total_score = Some (3/10), docking_score = Some (3/10), energy_score = Some (3/10),
       raw_data = dup_row_first, conf_id = (1, 2), best_protein = ''A''\<rparr>,
      \<lparr>total_score = Some (2/5), docking_score = Some (2/5), energy_score = Some (2/5),
       raw_data = dup_row_first, conf_id = (2, 1), best_protein = ''B''\<rparr>]"

text \<open>
  A configuration whose \<open>docking_weight\<close> is 0.0, whose \<open>energy_weight\<close> is 0.7 and whose
  \<open>optional_weight\<close> is unset, and three rows that each have the worst value 1.0 in one
  category and the best value 0.0 in the two others, so that the total score of a row,
  with an optional metric selected, is the weight of that category. \<open>weight_row t d e x\<close>
  is the row of the identity \<open>(t, 1)\<close> with the normalized docking score \<open>d\<close>, the
  normalized emodel \<open>e\<close> and the normalized value \<open>x\<close> of the optional metric
  \<open>r_i_glide_lipo\<close>.
\<close>

definition weight_config :: config where
  "weight_config = [''scoring'' \<mapsto> [''docking_weight'' \<mapsto> 0, ''energy_weight'' \<mapsto> 7/10]]"

definition weight_row :: "int \<Rightarrow> real \<Rightarrow> real \<Rightarrow> real \<Rightarrow> row" where
  "weight_row t d e x = \<lparr>title = t, lignum = 1, protein_name = ''A'',
       cells = [''normalized_r_i_docking_score'' \<mapsto> Some d,
                ''normalized_r_i_glide_emodel'' \<mapsto> Some e,
                ''normalized_r_i_glide_lipo'' \<mapsto> Some x]\<rparr>"

definition weight_rows :: "row list" where
  "weight_rows = [weight_row 1 1 0 0, weight_row 2 0 1 0, weight_row 3 0 0 1]"

text \<open>
  A normalized table of five rows, \<open>tie_row t p d e\<close> being the row of protein \<open>p\<close> for
  the identity \<open>(t, 1)\<close> with the normalized docking score \<open>d\<close> and the normalized emodel
  \<open>e\<close>. Under the default weights the total score of a row is \<open>d / 2 + e / 2\<close>. The
  identity (1, 1) has two rows of protein A (totals 0.0, then 0.5), one of protein B
  (total 0.5) and one of protein C (total 1.0).
\<close>

definition tie_row :: "int \<Rightarrow> string \<Rightarrow> real \<Rightarrow> real \<Rightarrow> row" where
  "tie_row t p d e = \<lparr>title = t, lignum = 1, protein_name = p,
      cells = [''normalized_r_i_docking_score'' \<mapsto> Some d,
               ''normalized_r_i_glide_emodel'' \<mapsto> Some e]\<rparr>"

definition tie_data :: "row list" where
  "tie_data = [tie_row 1 ''A'' 0 0, tie_row 1 ''B'' 1 0, tie_row 1 ''C'' 1 1,
               tie_row 1 ''A'' 0 1, tie_row 2 ''C'' 0 0]"

text \<open>
  A table of three protein groups with the metric column \<open>r_i_docking_score\<close>, \<open>nan_row\<close>
  being a row of it: group A has the values 2.0 and 1.0, group B the value 5.0, and the
  only row of group C has no value. \<open>nan_normalized\<close> is the table that \<open>normalize_data\<close>
  makes of it, \<open>nan_conformation_ranking\<close> what \<open>rank_conformations\<close> returns for that
  table, and \<open>nan_protein_ranking\<close> what \<open>rank_proteins\<close> returns for that ranking.
\<close>

definition nan_row :: "int \<Rightarrow> string \<Rightarrow> pyfloat \<Rightarrow> row" where
  "nan_row t p v = \<lparr>title = t, lignum = 1, protein_name = p, cells = [''r_i_docking_score'' \<mapsto> v]\<rparr>"

definition nan_normalized_row :: "int \<Rightarrow> string \<Rightarrow> pyfloat \<Rightarrow> pyfloat \<Rightarrow> row" where
  "nan_normalized_row t p v n = \<lparr>title = t, lignum = 1, protein_name = p,
      cells = [''r_i_docking_score'' \<mapsto> v, ''normalized_r_i_docking_score'' \<mapsto> n]\<rparr>"

definition nan_data :: "row list" where
  "nan_data = [nan_row 1 ''A'' (Some 2), nan_row 2 ''C'' None, nan_row 3 ''B'' (Some 5),
               nan_row 3 ''A'' (Some 1)]"

definition nan_normalized :: "row list" where
  "nan_normalized =
     [nan_normalized_row 1 ''A'' (Some 2) (Some 1), nan_normalized_row 2 ''C'' None None,
      nan_normalized_row 3 ''B'' (Some 5) (Some 0), nan_normalized_row 3 ''A'' (Some 1) (Some 0)]"

definition nan_conformation_ranking :: "ranking_entry list" where
  "nan_conformation_ranking =
     [\<lparr>total_score = Some 1, docking_score = Some 1, energy_score = Some 1,
       raw_data = nan_normalized_row 1 ''A'' (Some 2) (Some 1), conf_id = (1, 1), best_protein = ''A''\<rparr>,
      \<lparr>total_score = None, docking_score = None, energy_score = Some 1,
       raw_data = nan_normalized_row 2 ''C'' None None, conf_id = (2, 1), best_protein = ''C''\<rparr>,
      \<lparr>total_score = Some (1/2), docking_score = Some 0, energy_score = Some 1,
       raw_data = nan_normalized_row 3 ''B'' (Some 5) (Some 0), conf_id = (3, 1), best_protein = ''B''\<rparr>]"

definition nan_protein_ranking :: "protein_entry list" where
  "nan_protein_ranking =
     [\<lparr>ranked_protein_name = ''A'', best_count = 1, avg_total_score = Some 1,
       avg_docking_score = Some 1, avg_energy_score = Some 1\<rparr>,
      \<lparr>ranked_protein_name = ''C'', best_count = 1, avg_total_score = None,
       avg_docking_score = None, avg_energy_score = Some 1\<rparr>,
      \<lparr>ranked_protein_name = ''B'', best_count = 1, avg_total_score = Some (1/2),
       avg_docking_score = Some 0, avg_energy_score = Some 1\<rparr>]"


section \<open>Properties of double-precision rounding\<close>

lemma floor_log2_eq:
  assumes "0 < x" "2 powr of_int k \<le> x" "x < 2 powr of_int (k + 1)"
  shows "\<lfloor>log 2 x\<rfloor> = k"
proof -
  have "of_int k \<le> log 2 x"
    using assms(1,2) by (simp add: le_log_iff)
  moreover have "log 2 x < of_int k + 1"
    using assms(1,3) by (simp add: log_less_iff)
  ultimately show ?thesis by linarith
qed

lemma round_double_scaled:
  assumes "0 < x" "2 ^ 52 \<le> x * 2 ^ n" "x * 2 ^ n < 2 ^ 53"
  shows "round_double x = of_int (round_half_even (x * 2 ^ n)) / 2 ^ n"
proof -
  have p: "2 powr of_int (52 - int n) = 2 ^ 52 / (2 ^ n :: real)"
    by (simp add: powr_diff powr_realpow)
  have p1: "2 powr of_int (52 - int n + 1) = 2 ^ 53 / (2 ^ n :: real)"
    by (simp add: powr_diff powr_add powr_realpow)
  have "2 powr of_int (52 - int n) \<le> x"
    unfolding p using assms(2) by (simp add: field_simps)
  moreover have "x < 2 powr of_int (52 - int n + 1)"
    unfolding p1 using assms(3) by (simp add: field_simps)
  ultimately have fl: "\<lfloor>log 2 x\<rfloor> = 52 - int n"
    using assms(1) by (intro floor_log2_eq) 
  have e: "2 powr - real n = 1 / (2 ^ n :: real)"
    by (simp add: powr_minus powr_realpow field_simps)
  have "x \<noteq> 0" "\<bar>x\<bar> = x" using assms(1) by simp_all
  then show ?thesis
    by (simp add: round_double_def fl Let_def e)
qed


lemma round_half_even_error: "\<bar>of_int (round_half_even x) - x\<bar> \<le> 1/2"
  unfolding round_half_even_def Let_def by (auto; linarith)

lemma round_double_error: "\<bar>round_double x - x\<bar> \<le> \<bar>x\<bar> / 2 ^ 53"
proof (cases "x = 0")
  case True
  then show ?thesis by (simp add: round_double_def)
next
  case False
  define e where "e = \<lfloor>log 2 \<bar>x\<bar>\<rfloor> - 52"
  define P :: real where "P = 2 powr of_int e"
  define m where "m = x / P"
  have P: "0 < P" by (simp add: P_def)
  have x: "x = m * P" using P by (simp add: m_def)
  have rd: "round_double x = of_int (round_half_even m) * P"
    using False by (simp add: round_double_def Let_def e_def P_def m_def)
  have "of_int (round_half_even m) * P - m * P = (of_int (round_half_even m) - m) * P"
    by (simp add: algebra_simps)
  with rd x have "round_double x - x = (of_int (round_half_even m) - m) * P"
    by metis
  then have "\<bar>round_double x - x\<bar> = \<bar>of_int (round_half_even m) - m\<bar> * P"
    using P by (simp add: abs_mult)
  also have "\<dots> \<le> 1/2 * P"
    using round_half_even_error [of m] P by (intro mult_right_mono) simp_all
  finally have 1: "\<bar>round_double x - x\<bar> \<le> P / 2" by simp
  have "2 powr of_int \<lfloor>log 2 \<bar>x\<bar>\<rfloor> \<le> 2 powr log 2 \<bar>x\<bar>"
    by (intro powr_mono) simp_all
  also have "\<dots> = \<bar>x\<bar>" using False by simp
  finally have "2 powr of_int (e + 52) \<le> \<bar>x\<bar>" by (simp add: e_def)
  moreover have "2 powr of_int (e + 52) = P * 2 ^ 52"
    by (simp add: P_def powr_add powr_realpow)
  ultimately have "P * 2 ^ 52 \<le> \<bar>x\<bar>" by simp
  then have "P / 2 \<le> \<bar>x\<bar> / 2 ^ 53" by (simp add: field_simps)
  with 1 show ?thesis by linarith
qed

lemma round_double_bounds:
  assumes "0 \<le> x"
  shows "x * (1 - unit_roundoff) \<le> round_double x" "round_double x \<le> x * (1 + unit_roundoff)"
proof -
  have "\<bar>round_double x - x\<bar> \<le> x * unit_roundoff"
    using round_double_error [of x] assms by (simp add: unit_roundoff_def)
  then show "x * (1 - unit_roundoff) \<le> round_double x" "round_double x \<le> x * (1 + unit_roundoff)"
    by (simp_all only: abs_le_iff right_diff_distrib distrib_left mult_1_right) linarith+
qed

lemma unit_roundoff_range: "0 < unit_roundoff" "unit_roundoff \<le> 1 / 8"
  by (simp_all add: unit_roundoff_def)

lemma round_double_upper:
  assumes "0 \<le> x" "x \<le> c"
  shows "round_double x \<le> c * (1 + unit_roundoff)"
proof -
  have "round_double x \<le> x * (1 + unit_roundoff)"
    using assms(1) by (rule round_double_bounds)
  also have "\<dots> \<le> c * (1 + unit_roundoff)"
    using assms(2) unit_roundoff_range(1) by (intro mult_right_mono) simp_all
  finally show ?thesis .
qed

lemma round_double_lower:
  assumes "0 \<le> c" "c \<le> x"
  shows "c * (1 - unit_roundoff) \<le> round_double x"
proof -
  have "c * (1 - unit_roundoff) \<le> x * (1 - unit_roundoff)"
    using assms(2) unit_roundoff_range by (intro mult_right_mono) simp_all
  also have "\<dots> \<le> round_double x"
    using assms by (intro round_double_bounds) simp
  finally show ?thesis .
qed

lemma round_double_nonneg: "0 \<le> x \<Longrightarrow> 0 \<le> round_double x"
  using round_double_lower [of 0 x] by simp

lemma roundoff_factors:
  fixes u :: real
  assumes "0 < u" "u \<le> 1 / 8"
  shows "(1 + u) ^ 3 \<le> (1 + 8 * u) * (1 - u)" "(1 - 8 * u) * (1 + u) \<le> (1 - u) ^ 3"
proof -
  have uu: "u * u \<le> u / 8" using assms by (simp add: mult_left_le_one_le mult_mono)
  have uuu: "u * u * u \<le> u * u" using assms
    by (metis (no_types) less_eq_real_def mult_left_le mult_nonneg_nonneg order_trans
        divide_le_eq_1_pos zero_less_numeral one_le_numeral le_divide_eq_numeral1(1))
  have p: "0 \<le> u * u" "0 \<le> u * u * u" using assms by simp_all
  have e1: "(1 + u) ^ 3 = 1 + 3 * u + 3 * (u * u) + u * u * u"
    by (simp add: power3_eq_cube algebra_simps)
  have e2: "(1 + 8 * u) * (1 - u) = 1 + 7 * u - 8 * (u * u)"
    by (simp add: algebra_simps)
  have e3: "(1 - u) ^ 3 = 1 - 3 * u + 3 * (u * u) - u * u * u"
    by (simp add: power3_eq_cube algebra_simps)
  have e4: "(1 - 8 * u) * (1 + u) = 1 - 7 * u - 8 * (u * u)"
    by (simp add: algebra_simps)
  show "(1 + u) ^ 3 \<le> (1 + 8 * u) * (1 - u)"
    unfolding e1 e2 using uu uuu p assms by linarith
  show "(1 - 8 * u) * (1 + u) \<le> (1 - u) ^ 3"
    unfolding e3 e4 using uu uuu p assms by linarith
qed

lemma frac_sum:
  fixes x :: real
  shows "x / (S * k) * c * d * c + y / (S * k) * c * e * c = (x * d + y * e) / S * (c ^ 2 / k)"
proof -
  have "(x * d + y * e) / S * (c ^ 2 / k) = (x * d + y * e) * (c * c) / (S * k)"
    by (simp add: power2_eq_square)
  also have "\<dots> = x * d * (c * c) / (S * k) + y * e * (c * c) / (S * k)"
    by (simp only: distrib_right add_divide_distrib)
  also have "\<dots> = x / (S * k) * c * d * c + y / (S * k) * c * e * c"
    by (simp add: mult_ac)
  finally show ?thesis by simp
qed





lemma round_half_even_ceiling: "round_half_even x \<le> \<lceil>x\<rceil>"
  unfolding round_half_even_def Let_def
  by (auto simp: ceiling_altdef)














text \<open>
  The total score of the redistribution branch is the quotient of the specification up
  to rounding: for non-negative weights and category scores the six roundings move it by
  at most the fraction \<open>1 / 2 ^ 50\<close> of the exact quotient (with the unbounded exponent
  range of \<open>round_double\<close>, so as long as nothing underflows).
\<close>

lemma redistributed_total_score_error:
  assumes dw: "0 \<le> dw" and ew: "0 \<le> ew" and S: "0 < dw + ew" and d: "0 \<le> d" and e: "0 \<le> e"
  shows "\<bar>redistributed_total_score dw ew d e - (dw * d + ew * e) / (dw + ew)\<bar>
           \<le> (dw * d + ew * e) / (dw + ew) / 2 ^ 50"
proof -
  define u where "u = unit_roundoff"
  define s where "s = round_double (dw + ew)"
  define a where "a = round_double (dw / s)"
  define b where "b = round_double (ew / s)"
  define p where "p = round_double (a * d)"
  define q where "q = round_double (b * e)"
  define Q where "Q = (dw * d + ew * e) / (dw + ew)"
  have u: "0 < u" "u \<le> 1 / 8" unfolding u_def by (rule unit_roundoff_range)+
  have u1: "0 < 1 - u" "0 < 1 + u" using u by simp_all
  have t: "redistributed_total_score dw ew d e = round_double (p + q)"
    by (simp add: redistributed_total_score_def Let_def p_def q_def a_def b_def s_def)
  have Q0: "0 \<le> Q" unfolding Q_def using dw ew d e S by simp
  \<comment> \<open>the sum of the weights\<close>
  have s_lo: "(dw + ew) * (1 - u) \<le> s"
    unfolding s_def u_def using S by (intro round_double_lower) simp_all
  have s_hi: "s \<le> (dw + ew) * (1 + u)"
    unfolding s_def u_def using S by (intro round_double_upper) simp_all
  have s_pos: "0 < s" using s_lo S u1 by (meson less_le_trans mult_pos_pos)
  have lo_pos: "0 < (dw + ew) * (1 - u)" using S u1 by simp
  have hi_pos: "0 < (dw + ew) * (1 + u)" using S u1 by simp
  \<comment> \<open>the adjusted weights\<close>
  have A_hi: "w / s \<le> w / ((dw + ew) * (1 - u))" if "0 \<le> w" for w
    using that s_lo lo_pos s_pos by (intro divide_left_mono) simp_all
  have A_lo: "w / ((dw + ew) * (1 + u)) \<le> w / s" if "0 \<le> w" for w
    using that s_hi hi_pos s_pos by (intro divide_left_mono) simp_all
  have A_pos: "0 \<le> w / s" if "0 \<le> w" for w using that s_pos by simp
  have a_hi: "a \<le> dw / ((dw + ew) * (1 - u)) * (1 + u)"
    unfolding a_def u_def [symmetric] using A_hi [OF dw] A_pos [OF dw]
    unfolding u_def by (intro round_double_upper)
  have b_hi: "b \<le> ew / ((dw + ew) * (1 - u)) * (1 + u)"
    unfolding b_def using A_hi [OF ew] A_pos [OF ew]
    unfolding u_def by (intro round_double_upper)
  have a_lo: "dw / ((dw + ew) * (1 + u)) * (1 - u) \<le> a"
    unfolding a_def using A_lo [OF dw] dw hi_pos
    unfolding u_def by (intro round_double_lower) simp_all
  have b_lo: "ew / ((dw + ew) * (1 + u)) * (1 - u) \<le> b"
    unfolding b_def using A_lo [OF ew] ew hi_pos
    unfolding u_def by (intro round_double_lower) simp_all
  have a0: "0 \<le> a" unfolding a_def using A_pos [OF dw] by (rule round_double_nonneg)
  have b0: "0 \<le> b" unfolding b_def using A_pos [OF ew] by (rule round_double_nonneg)
  \<comment> \<open>the two products\<close>
  have ad0: "0 \<le> a * d" using a0 d by (rule mult_nonneg_nonneg)
  have be0: "0 \<le> b * e" using b0 e by (rule mult_nonneg_nonneg)
  have ad_hi: "a * d \<le> dw / ((dw + ew) * (1 - u)) * (1 + u) * d"
    using a_hi d by (rule mult_right_mono)
  have be_hi: "b * e \<le> ew / ((dw + ew) * (1 - u)) * (1 + u) * e"
    using b_hi e by (rule mult_right_mono)
  have p_hi: "p \<le> dw / ((dw + ew) * (1 - u)) * (1 + u) * d * (1 + u)"
    unfolding p_def u_def
    using ad0 ad_hi [unfolded u_def] by (rule round_double_upper)
  have q_hi: "q \<le> ew / ((dw + ew) * (1 - u)) * (1 + u) * e * (1 + u)"
    unfolding q_def u_def
    using be0 be_hi [unfolded u_def] by (rule round_double_upper)
  have la0: "0 \<le> dw / ((dw + ew) * (1 + u)) * (1 - u)" using dw hi_pos u1 by simp
  have lb0: "0 \<le> ew / ((dw + ew) * (1 + u)) * (1 - u)" using ew hi_pos u1 by simp
  have ad_lo: "dw / ((dw + ew) * (1 + u)) * (1 - u) * d \<le> a * d"
    using a_lo d by (rule mult_right_mono)
  have be_lo: "ew / ((dw + ew) * (1 + u)) * (1 - u) * e \<le> b * e"
    using b_lo e by (rule mult_right_mono)
  have lad0: "0 \<le> dw / ((dw + ew) * (1 + u)) * (1 - u) * d"
    using la0 d by (rule mult_nonneg_nonneg)
  have lbe0: "0 \<le> ew / ((dw + ew) * (1 + u)) * (1 - u) * e"
    using lb0 e by (rule mult_nonneg_nonneg)
  have p_lo: "dw / ((dw + ew) * (1 + u)) * (1 - u) * d * (1 - u) \<le> p"
    unfolding p_def u_def
    using lad0 [unfolded u_def] ad_lo [unfolded u_def] by (rule round_double_lower)
  have q_lo: "ew / ((dw + ew) * (1 + u)) * (1 - u) * e * (1 - u) \<le> q"
    unfolding q_def u_def
    using lbe0 [unfolded u_def] be_lo [unfolded u_def] by (rule round_double_lower)
  have p0: "0 \<le> p" unfolding p_def using ad0 by (rule round_double_nonneg)
  have q0: "0 \<le> q" unfolding q_def using be0 by (rule round_double_nonneg)
  \<comment> \<open>the sum\<close>
  have hi_eq: "dw / ((dw + ew) * (1 - u)) * (1 + u) * d * (1 + u)
             + ew / ((dw + ew) * (1 - u)) * (1 + u) * e * (1 + u)
             = Q * ((1 + u) ^ 2 / (1 - u))"
    unfolding Q_def by (rule frac_sum)
  have lo_eq: "dw / ((dw + ew) * (1 + u)) * (1 - u) * d * (1 - u)
             + ew / ((dw + ew) * (1 + u)) * (1 - u) * e * (1 - u)
             = Q * ((1 - u) ^ 2 / (1 + u))"
    unfolding Q_def by (rule frac_sum)
  have sum_hi: "p + q \<le> Q * ((1 + u) ^ 2 / (1 - u))"
    using p_hi q_hi unfolding hi_eq [symmetric] by linarith
  have sum_lo: "Q * ((1 - u) ^ 2 / (1 + u)) \<le> p + q"
    using p_lo q_lo unfolding lo_eq [symmetric] by linarith
  have lo0: "0 \<le> Q * ((1 - u) ^ 2 / (1 + u))" using Q0 u1 by simp
  have t_hi: "round_double (p + q) \<le> Q * ((1 + u) ^ 2 / (1 - u)) * (1 + u)"
    unfolding u_def using p0 q0 sum_hi [unfolded u_def] by (intro round_double_upper) simp_all
  have t_lo: "Q * ((1 - u) ^ 2 / (1 + u)) * (1 - u) \<le> round_double (p + q)"
    unfolding u_def using lo0 [unfolded u_def] sum_lo [unfolded u_def] by (intro round_double_lower)
  \<comment> \<open>the factors\<close>
  have "(1 + u) ^ 2 / (1 - u) * (1 + u) = (1 + u) ^ 3 / (1 - u)"
    by (simp add: power3_eq_cube power2_eq_square)
  also have "\<dots> \<le> 1 + 8 * u"
    using roundoff_factors(1) [OF u] u1 by (simp add: pos_divide_le_eq)
  finally have f_hi: "(1 + u) ^ 2 / (1 - u) * (1 + u) \<le> 1 + 8 * u" .
  have "1 - 8 * u \<le> (1 - u) ^ 3 / (1 + u)"
    using roundoff_factors(2) [OF u] u1 by (simp add: pos_le_divide_eq)
  also have "\<dots> = (1 - u) ^ 2 / (1 + u) * (1 - u)"
    by (simp add: power3_eq_cube power2_eq_square)
  finally have f_lo: "1 - 8 * u \<le> (1 - u) ^ 2 / (1 + u) * (1 - u)" .
  have "round_double (p + q) \<le> Q * ((1 + u) ^ 2 / (1 - u) * (1 + u))"
    using t_hi by (simp add: mult.assoc)
  also have "\<dots> \<le> Q * (1 + 8 * u)"
    using f_hi Q0 by (rule mult_left_mono)
  finally have hi: "round_double (p + q) - Q \<le> Q * (8 * u)" by (simp add: algebra_simps)
  have "Q * (1 - 8 * u) \<le> Q * ((1 - u) ^ 2 / (1 + u) * (1 - u))"
    using f_lo Q0 by (rule mult_left_mono)
  also have "\<dots> \<le> round_double (p + q)"
    using t_lo by (simp add: mult.assoc)
  finally have lo: "- (Q * (8 * u)) \<le> round_double (p + q) - Q" by (simp add: algebra_simps)
  have "8 * u = 1 / 2 ^ 50" by (simp add: u_def unit_roundoff_def)
  then have "Q * (8 * u) = Q / 2 ^ 50" by (simp only: times_divide_eq_right mult_1_right)
  with hi lo have "round_double (p + q) - Q \<le> Q / 2 ^ 50"
    "- (Q / 2 ^ 50) \<le> round_double (p + q) - Q"
    by (simp_all only:)
  then have "\<bar>round_double (p + q) - Q\<bar> \<le> Q / 2 ^ 50"
    by (rule abs_leI [OF _ iffD1 [OF minus_le_iff]])
  then show ?thesis unfolding t Q_def .
qed

text \<open>
  For the doubles nearest to 0.03 and 0.29 and the category scores 1.0 and 1.0 the total
  score of the redistribution branch is \<open>1 + 1 / 2 ^ 52\<close>, which prints as
  1.0000000000000002: the two adjusted weights, each rounded, sum to more than 1.
\<close>

lemma adjusted_weight_values:
  "round_double (3/100) = 1080863910568919 / 36028797018963968"
  "round_double (29/100) = 5224175567749775 / 18014398509481984"
  "round_double (1080863910568919 / 36028797018963968 + 5224175567749775 / 18014398509481984)
     = 2882303761517117 / 9007199254740992"
  "round_double (1080863910568919 / 36028797018963968 / (2882303761517117 / 9007199254740992))
     = 6755399441055745 / 72057594037927936"
  "round_double (5224175567749775 / 18014398509481984 / (2882303761517117 / 9007199254740992))
     = 8162774324609025 / 9007199254740992"
  "round_double (6755399441055745 / 72057594037927936) = 6755399441055745 / 72057594037927936"
  "round_double (8162774324609025 / 9007199254740992) = 8162774324609025 / 9007199254740992"
  "round_double (6755399441055745 / 72057594037927936 + 8162774324609025 / 9007199254740992)
     = 1 + 1 / 2 ^ 52"
         apply (subst round_double_scaled [where n = 58], simp_all add: round_half_even_def)[1]
        apply (subst round_double_scaled [where n = 54], simp_all add: round_half_even_def)[1]
       apply (subst round_double_scaled [where n = 54], simp_all add: round_half_even_def)[1]
      apply (subst round_double_scaled [where n = 56], simp_all add: round_half_even_def)[1]
     apply (subst round_double_scaled [where n = 53], simp_all add: round_half_even_def)[1]
    apply (subst round_double_scaled [where n = 56], simp_all add: round_half_even_def)[1]
   apply (subst round_double_scaled [where n = 53], simp_all add: round_half_even_def)[1]
  apply (subst round_double_scaled [where n = 52], simp_all add: round_half_even_def)[1]
  done


lemma redistributed_total_exceeds_one:
  "redistributed_total_score (round_double (3/100)) (round_double (29/100)) 1 1 = 1 + 1 / 2 ^ 52"
  unfolding redistributed_total_score_def Let_def mult_1_right adjusted_weight_values ..

section \<open>Properties of the composite scorer\<close>

lemma notna_simps [simp]: "notna None = False" "notna (Some x) = True"
  by (simp_all add: notna_def)

lemma col_in_row_iff: "col_in_row c r = (case cells r c of None \<Rightarrow> False | Some v \<Rightarrow> True)"
  by (simp add: col_in_row_def split: option.splits)








lemma has_optional_iff:
  "snd (calculate_optional_score r sel weights) \<longleftrightarrow> (\<exists>m\<in>set sel. m \<in> set OPTIONAL_METRICS)"
  by (auto simp: calculate_optional_score_def Let_def filter_empty_conv)










section \<open>Properties of the normalizer\<close>

lemma exp_double_lower:
  fixes x l l' :: real
  assumes "l \<le> exp x" "0 \<le> l" "l' \<le> l * l"
  shows "l' \<le> exp (2 * x)"
proof -
  have "l * l \<le> exp x * exp x"
    using assms(1,2) by (intro mult_mono) simp_all
  also have "exp x * exp x = exp (2 * x)"
    by (simp add: exp_add [symmetric])
  finally show ?thesis using assms(3) by linarith
qed

lemma exp_double_upper:
  fixes x u u' :: real
  assumes "exp x \<le> u" "u * u \<le> u'"
  shows "exp (2 * x) \<le> u'"
proof -
  have "0 \<le> u"
    using assms(1) exp_ge_zero [of x] by linarith
  then have "exp x * exp x \<le> u * u"
    using assms(1) by (intro mult_mono) simp_all
  moreover have "exp x * exp x = exp (2 * x)"
    by (simp add: exp_add [symmetric])
  ultimately show ?thesis using assms(2) by linarith
qed

lemma exp3_lower: "(20.06::real) < exp 3"
proof -
  have "(1 + 3/64 + (3/64)\<^sup>2 / 2) \<le> exp (3/64 :: real)"
    by (rule exp_lower_Taylor_quadratic) simp
  then have l0: "(1.0479736::real) \<le> exp (3/64)"
    by (simp add: power2_eq_square)
  have l1: "(1.0982486::real) \<le> exp (3/32)"
    using exp_double_lower [OF l0, of "1.0982486"] by simp
  have l2: "(1.2061499::real) \<le> exp (3/16)"
    using exp_double_lower [OF l1, of "1.2061499"] by simp
  have l3: "(1.4547975::real) \<le> exp (3/8)"
    using exp_double_lower [OF l2, of "1.4547975"] by simp
  have l4: "(2.1164357::real) \<le> exp (3/4)"
    using exp_double_lower [OF l3, of "2.1164357"] by simp
  have l5: "(4.4793::real) \<le> exp (3/2)"
    using exp_double_lower [OF l4, of "4.4793"] by simp
  have l6: "(20.0641284::real) \<le> exp 3"
    using exp_double_lower [OF l5, of "20.0641284"] by simp
  then show ?thesis by simp
qed

lemma exp3_upper: "exp 3 < (20.505::real)"
proof -
  have b: "exp (1/128 :: real) \<le> 1 + 1/128 + (1/128)\<^sup>2"
    by (rule exp_bound) simp_all
  have "exp (3/128 :: real) = exp (1/128) ^ 3"
    using exp_of_nat_mult [of 3 "1/128 :: real"] by simp
  also have "\<dots> \<le> (1 + 1/128 + (1/128)\<^sup>2) ^ 3"
    using b by (intro power_mono) simp_all
  also have "\<dots> \<le> (1.0238071::real)"
    by (simp add: power2_eq_square power3_eq_cube)
  finally have u0: "exp (3/128 :: real) \<le> 1.0238071" .
  have u1: "exp (3/64 :: real) \<le> 1.048181"
    using exp_double_upper [OF u0, of "1.048181"] by simp
  have u2: "exp (3/32 :: real) \<le> 1.0986835"
    using exp_double_upper [OF u1, of "1.0986835"] by simp
  have u3: "exp (3/16 :: real) \<le> 1.2071055"
    using exp_double_upper [OF u2, of "1.2071055"] by simp
  have u4: "exp (3/8 :: real) \<le> 1.4571037"
    using exp_double_upper [OF u3, of "1.4571037"] by simp
  have u5: "exp (3/4 :: real) \<le> 2.1231512"
    using exp_double_upper [OF u4, of "2.1231512"] by simp
  have u6: "exp (3/2 :: real) \<le> 4.5077711"
    using exp_double_upper [OF u5, of "4.5077711"] by simp
  have u7: "exp (3 :: real) \<le> 20.3200003"
    using exp_double_upper [OF u6, of "20.3200003"] by simp
  then show ?thesis by simp
qed

lemma logistic_3_approx: "0.9525 < logistic 3 \<and> logistic 3 < 0.9535"
proof -
  have e: "exp (- 3 :: real) = 1 / exp 3" by (simp add: exp_minus inverse_eq_divide)
  have pos: "0 < exp (3::real)" by simp
  have "logistic 3 = exp 3 / (exp 3 + 1)"
    unfolding logistic_def e using pos by (simp add: field_simps)
  moreover have "0.9525 < exp 3 / (exp 3 + 1 :: real)"
  proof -
    have "0.9525 * (exp 3 + 1) < exp (3::real)" using exp3_lower by simp
    moreover have "0 < exp (3::real) + 1" using pos by linarith
    ultimately show ?thesis by (simp only: pos_less_divide_eq)
  qed
  moreover have "exp 3 / (exp 3 + 1 :: real) < 0.9535"
  proof -
    have "exp (3::real) < 0.9535 * (exp 3 + 1)" using exp3_upper by simp
    moreover have "0 < exp (3::real) + 1" using pos by linarith
    ultimately show ?thesis by (simp only: pos_divide_less_eq)
  qed
  ultimately show ?thesis by (simp only:)
qed






lemma set_dropna: "set (dropna values) = {x. Some x \<in> set values}"
  by (force simp: dropna_def notna_def image_iff)

lemma dropna_simps [simp]:
  "dropna [] = []" "dropna (None # vs) = dropna vs" "dropna (Some x # vs) = x # dropna vs"
  by (simp_all add: dropna_def)

lemma normalize_min_max_map:
  assumes "dropna values \<noteq> []"
  shows "normalize_metric values ''min-max'' =
     map (\<lambda>v. case v of None \<Rightarrow> Some 1
              | Some x \<Rightarrow> if Max (set (dropna values)) = Min (set (dropna values)) then Some 0
                         else Some ((x - Min (set (dropna values))) /
                                    (Max (set (dropna values)) - Min (set (dropna values)))))
         values"
  using assms
  by (subst normalize_metric.simps)
     (auto simp: Let_def degenerate_def fillna_def notna_def fsub_def fdiv_def split: option.splits)

lemma normalize_z_score_single:
  assumes "length (dropna values) = 1"
  shows "normalize_metric values ''z-score'' = replicate (length values) (Some (logistic 3))"
proof -
  have ne: "dropna values \<noteq> []"
    using assms by auto
  have s: "std (dropna values) = None"
    using assms by (simp add: std_def)
  have "normalize_metric values ''z-score'' = map (\<lambda>v. Some (logistic 3)) values"
    using ne s
    by (subst normalize_metric.simps)
       (auto simp: Let_def fillna_def fsub_def fdiv_def split: option.splits)
  then show ?thesis by (simp add: map_replicate_const)
qed

text \<open>
  Claim C6, as amended. For every group with at least one non-absent value, min-max
  normalization gives a column of the same length whose values all lie in [0,1]; the
  minimum non-absent input maps to 0.0 and, when max and min differ, the maximum maps to
  1.0; when max = min every non-absent value maps to 0.0 and every absent value to 1.0;
  otherwise a non-absent value maps to \<open>(value - min) / (max - min)\<close> and an absent one
  to 1.0. (As stated the claim sends the maximum to 1.0 in every group, which the
  degenerate branch contradicts: there the maximum is the minimum and maps to 0.0.)
\<close>

theorem min_max_normalization:
  assumes "dropna values \<noteq> []"
  shows "let lo = Min (set (dropna values)); hi = Max (set (dropna values));
             out = normalize_metric values ''min-max''
         in length out = length values
          \<and> (\<forall>v\<in>set out. in_unit v)
          \<and> (\<exists>i<length values. values ! i = Some lo)
          \<and> (\<exists>i<length values. values ! i = Some hi)
          \<and> (\<forall>i<length values.
                (values ! i = Some lo \<longrightarrow> out ! i = Some 0)
              \<and> (values ! i = Some hi \<and> hi \<noteq> lo \<longrightarrow> out ! i = Some 1)
              \<and> (hi = lo \<longrightarrow> out ! i = (if notna (values ! i) then Some 0 else Some 1))
              \<and> (hi \<noteq> lo \<longrightarrow> out ! i = (case values ! i of None \<Rightarrow> Some 1
                                          | Some x \<Rightarrow> Some ((x - lo) / (hi - lo)))))"
proof -
  let ?vs = "dropna values"
  let ?lo = "Min (set ?vs)" and ?hi = "Max (set ?vs)"
  have fin: "finite (set ?vs)" "set ?vs \<noteq> {}" using assms by simp_all
  have bounds: "?lo \<le> x \<and> x \<le> ?hi" if "Some x \<in> set values" for x
    using that fin by (simp add: set_dropna)
  have lohi: "?lo \<le> ?hi" using fin by (meson Max_in Min_le)
  have "?lo \<in> set ?vs" using fin by (rule Min_in)
  then have exlo: "\<exists>i<length values. values ! i = Some ?lo"
    by (simp add: set_dropna in_set_conv_nth)
  have "?hi \<in> set ?vs" using fin by (rule Max_in)
  then have exhi: "\<exists>i<length values. values ! i = Some ?hi"
    by (simp add: set_dropna in_set_conv_nth)
  have unit: "in_unit v" if "v \<in> set (normalize_metric values ''min-max'')" for v
  proof -
    from that obtain u where u: "u \<in> set values"
      and v: "v = (case u of None \<Rightarrow> Some 1
              | Some x \<Rightarrow> if ?hi = ?lo then Some 0
                         else Some ((x - ?lo) / (?hi - ?lo)))"
      unfolding normalize_min_max_map [OF assms] by auto
    show ?thesis
    proof (cases u)
      case None
      then show ?thesis using v by (simp add: in_unit_def)
    next
      case (Some x)
      then have "?lo \<le> x" "x \<le> ?hi" using bounds u by auto
      then show ?thesis using v Some lohi
        by (auto simp: in_unit_def divide_le_eq_1)
    qed
  qed
  have elems: "(values ! i = Some ?lo \<longrightarrow> normalize_metric values ''min-max'' ! i = Some 0)
      \<and> (values ! i = Some ?hi \<and> ?hi \<noteq> ?lo \<longrightarrow> normalize_metric values ''min-max'' ! i = Some 1)
      \<and> (?hi = ?lo \<longrightarrow> normalize_metric values ''min-max'' ! i = (if notna (values ! i) then Some 0 else Some 1))
      \<and> (?hi \<noteq> ?lo \<longrightarrow> normalize_metric values ''min-max'' ! i = (case values ! i of None \<Rightarrow> Some 1
                                          | Some x \<Rightarrow> Some ((x - ?lo) / (?hi - ?lo))))"
    if "i < length values" for i
    using that unfolding normalize_min_max_map [OF assms]
    by (auto simp: notna_def split: option.splits)
  have len: "length (normalize_metric values ''min-max'') = length values"
    unfolding normalize_min_max_map [OF assms] by simp
  show ?thesis
    unfolding Let_def using len unit exlo exhi elems by blast
qed

theorem min_max_normalization_witness:
  "normalize_metric [Some 1, None, Some 3, Some 2] ''min-max'' ! 0 = Some 0
   \<and> normalize_metric [Some 1, None, Some 3, Some 2] ''min-max'' ! 1 = Some 1
   \<and> normalize_metric [Some 1, None, Some 3, Some 2] ''min-max'' ! 2 = Some 1
   \<and> normalize_metric [Some 1, None, Some 3, Some 2] ''min-max'' ! 3 = Some (1/2)
   \<and> normalize_metric [Some 5, None, Some 5] ''min-max'' ! 0 = Some 0
   \<and> normalize_metric [Some 5, None, Some 5] ''min-max'' ! 1 = Some 1"
proof -
  have ne: "dropna [Some 1, None, Some 3, Some 2] \<noteq> []" by simp
  have ne': "dropna [Some 5, None, Some (5::real)] \<noteq> []" by simp
  show ?thesis
    using min_max_normalization [OF ne] min_max_normalization [OF ne']
    by (simp add: Let_def All_less_Suc numeral_2_eq_2 numeral_3_eq_3)
qed

theorem min_max_degenerate_counterexample:
  "dropna [Some 5] \<noteq> [] \<and> Max (set (dropna [Some 5])) = 5
   \<and> normalize_metric [Some 5] ''min-max'' ! 0 = Some 0
   \<and> normalize_metric [Some 5] ''min-max'' ! 0 \<noteq> Some 1"
  by (subst normalize_metric.simps, simp add: degenerate_def)+





text \<open>
  Claim C10. For a group with exactly one non-absent value the sample standard deviation
  is NaN and not zero, the test \<open>std == 0\<close> fails, and z-score normalization maps every
  value of the group, the present one included, to \<open>logistic 3\<close>, which is about 0.953 and
  not 0.0.
\<close>

theorem z_score_single_value:
  assumes "length (dropna values) = 1"
  shows "std (dropna values) = None
       \<and> std (dropna values) \<noteq> Some 0
       \<and> normalize_metric values ''z-score'' = replicate (length values) (Some (logistic 3))
       \<and> logistic 3 \<noteq> 0 \<and> 0.9525 < logistic 3 \<and> logistic 3 < 0.9535"
  using assms normalize_z_score_single [OF assms] logistic_3_approx
  by (simp add: std_def)

theorem z_score_single_value_witness:
  "normalize_metric [None, Some 7, None] ''z-score''
     = [Some (logistic 3), Some (logistic 3), Some (logistic 3)]
   \<and> logistic 3 \<noteq> 0"
proof -
  have h: "length (dropna [None, Some 7, None]) = 1" by simp
  show ?thesis
    using z_score_single_value [OF h] by (simp add: numeral_3_eq_3)
qed

section \<open>Properties of the configuration fallback\<close>

lemma py_or_configured:
  "py_or (config_get cfg ''scoring'' key) dflt = configured_weight cfg key dflt"
  by (simp add: py_or_def config_get_def configured_weight_def split: option.splits)

lemma configured_weight_nonzero: "dflt \<noteq> 0 \<Longrightarrow> configured_weight cfg key dflt \<noteq> 0"
  by (simp add: configured_weight_def split: option.splits)

lemma weight_row_sel [simp]:
  "title (weight_row t d e x) = t" "lignum (weight_row t d e x) = 1"
  "protein_name (weight_row t d e x) = ''A''"
  by (simp_all add: weight_row_def)

lemma weight_row_score:
  "calculate_composite_score (weight_row t d e x) (REQUIRED_METRICS @ [''r_i_glide_lipo''])
     Map.empty dw ew ow = Inr (Some (dw * d + ew * e + ow * x), Some d, Some e)"
  by (simp add: weight_row_def calculate_composite_score_def calculate_optional_score_def
        calculate_docking_score_def calculate_energy_score_def calculate_weighted_score_def
        REQUIRED_METRICS_def OPTIONAL_METRICS_def DOCKING_METRICS_def ENERGY_METRICS_def
        col_in_row_iff get_normalized_column_name_def get_normalized_value_def weight_get_def
        fadd_def fmul_def fdiv_def Let_def)

lemma weight_rows_scores:
  "score_rows (REQUIRED_METRICS @ [''r_i_glide_lipo'']) Map.empty (2/5) (7/10) (1/5) weight_rows
     = Inr [(Some (2/5), Some 1, Some 0), (Some (7/10), Some 0, Some 1), (Some (1/5), Some 0, Some 0)]"
  by (simp add: weight_rows_def weight_row_score)

lemma weight_rows_pairs:
  "pairs_loop (REQUIRED_METRICS @ [''r_i_glide_lipo'']) Map.empty (2/5) (7/10) (1/5) weight_rows []
     = Inr [((1, 1), [(''A'', \<lparr>total_score = Some (2/5), docking_score = Some 1,
                              energy_score = Some 0, raw_data = weight_row 1 1 0 0\<rparr>)]),
            ((2, 1), [(''A'', \<lparr>total_score = Some (7/10), docking_score = Some 0,
                              energy_score = Some 1, raw_data = weight_row 2 0 1 0\<rparr>)]),
            ((3, 1), [(''A'', \<lparr>total_score = Some (1/5), docking_score = Some 0,
                              energy_score = Some 0, raw_data = weight_row 3 0 0 1\<rparr>)])]"
  by (simp add: weight_rows_def weight_row_score Let_def)

lemma weight_config_values:
  "configured_weight weight_config ''docking_weight'' (2/5) = 2/5"
  "configured_weight weight_config ''energy_weight'' (2/5) = 7/10"
  "configured_weight weight_config ''optional_weight'' (1/5) = 1/5"
  by (simp_all add: configured_weight_def weight_config_def)

text \<open>
  Claim C9. \<open>score_data\<close> and \<open>score_conformation_protein_pairs\<close> run their loops with
  the three category weights read from the section \<open>scoring\<close> of the configuration, each
  through the fallback: the weight is the configured value, unless that value is unset or
  0.0, in which case it is the default, 0.4 for \<open>docking_weight\<close>, 0.4 for
  \<open>energy_weight\<close> and 0.2 for \<open>optional_weight\<close>. So none of the three weights the scorer
  works with is zero, whatever the configuration holds.
\<close>

theorem config_weight_fallback:
  "let dw = configured_weight cfg ''docking_weight'' 0.4;
       ew = configured_weight cfg ''energy_weight'' 0.4;
       ow = configured_weight cfg ''optional_weight'' 0.2
   in score_data cfg data sel weights =
        (if data = [] then Inr []
         else case score_rows sel weights dw ew ow data of
                Inl err \<Rightarrow> Inl err
              | Inr scores \<Rightarrow> Inr (map2 add_score_columns data scores))
    \<and> score_conformation_protein_pairs cfg data sel weights =
        (if data = [] then Inr [] else pairs_loop sel weights dw ew ow data [])
    \<and> dw \<noteq> 0 \<and> ew \<noteq> 0 \<and> ow \<noteq> 0"
  by (simp add: Let_def score_data_def score_conformation_protein_pairs_def py_or_configured
        configured_weight_nonzero)

theorem config_weight_fallback_witness:
  "score_data weight_config weight_rows (REQUIRED_METRICS @ [''r_i_glide_lipo'']) Map.empty
     = Inr (map2 add_score_columns weight_rows
         [(Some (2/5), Some 1, Some 0), (Some (7/10), Some 0, Some 1), (Some (1/5), Some 0, Some 0)])
   \<and> score_conformation_protein_pairs weight_config weight_rows
        (REQUIRED_METRICS @ [''r_i_glide_lipo'']) Map.empty
     = Inr [((1, 1), [(''A'', \<lparr>total_score = Some (2/5), docking_score = Some 1,
                              energy_score = Some 0, raw_data = weight_row 1 1 0 0\<rparr>)]),
            ((2, 1), [(''A'', \<lparr>total_score = Some (7/10), docking_score = Some 0,
                              energy_score = Some 1, raw_data = weight_row 2 0 1 0\<rparr>)]),
            ((3, 1), [(''A'', \<lparr>total_score = Some (1/5), docking_score = Some 0,
                              energy_score = Some 0, raw_data = weight_row 3 0 0 1\<rparr>)])]"
proof -
  have ne: "weight_rows \<noteq> []" by (simp add: weight_rows_def)
  note T = config_weight_fallback [of weight_config weight_rows
      "REQUIRED_METRICS @ [''r_i_glide_lipo'']" Map.empty, unfolded Let_def]
  from T have "score_data weight_config weight_rows (REQUIRED_METRICS @ [''r_i_glide_lipo'']) Map.empty =
        (case score_rows (REQUIRED_METRICS @ [''r_i_glide_lipo'']) Map.empty
                (configured_weight weight_config ''docking_weight'' (2/5))
                (configured_weight weight_config ''energy_weight'' (2/5))
                (configured_weight weight_config ''optional_weight'' (1/5)) weight_rows of
           Inl err \<Rightarrow> Inl err
         | Inr scores \<Rightarrow> Inr (map2 add_score_columns weight_rows scores))"
    using ne by simp
  then have first: "score_data weight_config weight_rows (REQUIRED_METRICS @ [''r_i_glide_lipo'']) Map.empty
     = Inr (map2 add_score_columns weight_rows
         [(Some (2/5), Some 1, Some 0), (Some (7/10), Some 0, Some 1), (Some (1/5), Some 0, Some 0)])"
    by (simp only: weight_config_values weight_rows_scores sum.case)
  from T have "score_conformation_protein_pairs weight_config weight_rows
        (REQUIRED_METRICS @ [''r_i_glide_lipo'']) Map.empty =
      pairs_loop (REQUIRED_METRICS @ [''r_i_glide_lipo'']) Map.empty
                (configured_weight weight_config ''docking_weight'' (2/5))
                (configured_weight weight_config ''energy_weight'' (2/5))
                (configured_weight weight_config ''optional_weight'' (1/5)) weight_rows []"
    using ne by simp
  then have second: "score_conformation_protein_pairs weight_config weight_rows
        (REQUIRED_METRICS @ [''r_i_glide_lipo'']) Map.empty
     = Inr [((1, 1), [(''A'', \<lparr>total_score = Some (2/5), docking_score = Some 1,
                              energy_score = Some 0, raw_data = weight_row 1 1 0 0\<rparr>)]),
            ((2, 1), [(''A'', \<lparr>total_score = Some (7/10), docking_score = Some 0,
                              energy_score = Some 1, raw_data = weight_row 2 0 1 0\<rparr>)]),
            ((3, 1), [(''A'', \<lparr>total_score = Some (1/5), docking_score = Some 0,
                              energy_score = Some 0, raw_data = weight_row 3 0 0 1\<rparr>)])]"
    by (simp only: weight_config_values weight_rows_pairs)
  from first second show ?thesis by (rule conjI)
qed

section \<open>An all-absent group beside a group with values\<close>

lemma bug_normalize_metric: "normalize_metric [Some 1, Some 2] ''min-max'' = [Some 0, Some 1]"
  by (subst normalize_metric.simps) (simp add: fillna_def fsub_def fdiv_def)

lemma bug_group_keys: "group_keys bug_data = [''A'', ''B'']"
  by (simp add: group_keys_def bug_data_def)

lemma bug_group_index: "group_index bug_data ''A'' = [0, 1]" "group_index bug_data ''B'' = [2]"
  by (simp_all add: group_index_def bug_data_def numeral_2_eq_2)

lemma bug_has_column: "has_column m bug_data = (m = ''r_i_docking_score'')"
  by (auto simp: has_column_def bug_data_def col_in_row_iff split: if_splits)

lemma bug_column_other: "m \<noteq> ''r_i_docking_score'' \<Longrightarrow> normalize_column bug_data method m nd = nd"
  by (simp add: normalize_column_def bug_has_column)

lemma bug_group_A: "normalize_group bug_data ''min-max'' ''r_i_docking_score'' ''A'' bug_data =
     [\<lparr>title = 1, lignum = 1, protein_name = ''A'',
        cells = [''r_i_docking_score'' \<mapsto> Some 1, ''normalized_r_i_docking_score'' \<mapsto> Some 0]\<rparr>,
      \<lparr>title = 2, lignum = 1, protein_name = ''A'',
        cells = [''r_i_docking_score'' \<mapsto> Some 2, ''normalized_r_i_docking_score'' \<mapsto> Some 1]\<rparr>,
      \<lparr>title = 1, lignum = 1, protein_name = ''B'',
        cells = [''r_i_docking_score'' \<mapsto> None, ''normalized_r_i_docking_score'' \<mapsto> None]\<rparr>]"
  unfolding normalize_group_def bug_group_index Let_def
  by (simp add: bug_data_def cell_def bug_normalize_metric loc_assign_def col_in_row_iff numeral_2_eq_2)

lemma bug_group_B: "normalize_group bug_data method ''r_i_docking_score'' ''B'' nd = nd"
  unfolding normalize_group_def bug_group_index Let_def
  by (simp add: bug_data_def cell_def)

lemma bug_column_docking: "normalize_column bug_data ''min-max'' ''r_i_docking_score'' bug_data = bug_normalized"
  by (simp add: normalize_column_def bug_has_column bug_group_keys bug_group_A bug_group_B bug_normalized_def)

lemma bug_normalize_data: "normalize_data bug_data ''min-max'' = bug_normalized"
proof -
  have ne: "bug_data \<noteq> []" by (simp add: bug_data_def)
  show ?thesis
    unfolding normalize_data_def REQUIRED_METRICS_def OPTIONAL_METRICS_def
    by (simp add: ne bug_column_docking bug_column_other)
qed

lemma lone_column: "normalize_column lone_data method m nd = nd"
  by (simp add: normalize_column_def normalize_group_def group_keys_def group_index_def
        lone_data_def cell_def Let_def)

lemma lone_normalize_data: "normalize_data lone_data method = lone_data"
  unfolding normalize_data_def REQUIRED_METRICS_def OPTIONAL_METRICS_def
  by (simp add: lone_column)

text \<open>
  Claim C2, at the table \<open>bug_data\<close>. Group B has no value of \<open>r_i_docking_score\<close>, group A
  has two. Normalizing group A creates the column \<open>normalized_r_i_docking_score\<close>, so the
  row of group B holds NaN there; the scorer finds the column in the row, and the docking
  category score and the total score of that row are NaN, where the claim says 1.0.
  For the row of group B alone (\<open>lone_data\<close>) no column is created and the docking
  category score is the fallback 1.0.
\<close>

theorem absent_group_scores_nan:
  "normalize_data bug_data ''min-max'' ! 2 =
     \<lparr>title = 1, lignum = 1, protein_name = ''B'',
      cells = [''r_i_docking_score'' \<mapsto> None, ''normalized_r_i_docking_score'' \<mapsto> None]\<rparr>
   \<and> calculate_docking_score (normalize_data bug_data ''min-max'' ! 2) Map.empty = None
   \<and> calculate_composite_score (normalize_data bug_data ''min-max'' ! 2) REQUIRED_METRICS
        Map.empty (2/5) (2/5) (1/5) = Inr (None, None, Some 1)
   \<and> calculate_docking_score (normalize_data lone_data ''min-max'' ! 0) Map.empty = Some 1"
  unfolding bug_normalize_data lone_normalize_data
  by (simp add: bug_normalized_def lone_data_def calculate_composite_score_def calculate_optional_score_def
        calculate_docking_score_def calculate_energy_score_def calculate_weighted_score_def
        REQUIRED_METRICS_def OPTIONAL_METRICS_def DOCKING_METRICS_def ENERGY_METRICS_def
        col_in_row_iff get_normalized_column_name_def get_normalized_value_def weight_get_def
        fadd_def fmul_def fdiv_def Let_def)

section \<open>Dicts, first-seen order and the sort\<close>

lemma set_first_seen [simp]: "set (first_seen xs) = set xs"
  by (induction xs) auto

lemma distinct_first_seen [simp]: "distinct (first_seen xs)"
  by (induction xs) (auto simp: distinct_removeAll)

lemma first_seen_snoc:
  "first_seen (xs @ [x]) = (if x \<in> set xs then first_seen xs else first_seen xs @ [x])"
  by (induction xs) auto

lemma map_of_dict_set [simp]: "map_of (dict_set k v kvs) = (map_of kvs)(k \<mapsto> v)"
  by (induction kvs) (auto simp: fun_eq_iff)

lemma keys_dict_set:
  "map fst (dict_set k v kvs) =
     (if k \<in> set (map fst kvs) then map fst kvs else map fst kvs @ [k])"
  by (induction kvs) (simp, force)

lemma dict_closed_form:
  assumes "distinct (map fst kvs)" "\<forall>k\<in>set (map fst kvs). map_of kvs k = Some (f k)"
  shows "kvs = map (\<lambda>k. (k, f k)) (map fst kvs)"
  using assms
proof (induction kvs)
  case Nil
  then show ?case by simp
next
  case (Cons kv kvs)
  obtain k v where kv: "kv = (k, v)" by (cases kv)
  have v: "v = f k" using Cons.prems(2) kv by simp
  have "\<forall>k'\<in>set (map fst kvs). map_of kvs k' = Some (f k')"
  proof
    fix k' assume k': "k' \<in> set (map fst kvs)"
    then have "k' \<noteq> k" using Cons.prems(1) kv by auto
    moreover have "k' \<in> set (map fst (kv # kvs))" using k' by simp
    then have "map_of (kv # kvs) k' = Some (f k')" using Cons.prems(2) by blast
    ultimately show "map_of kvs k' = Some (f k')" using kv by simp
  qed
  then have "kvs = map (\<lambda>k. (k, f k)) (map fst kvs)"
    using Cons by simp
  then show ?case using kv v by simp
qed

lemma set_py_insort [simp]: "set (py_insort lt key x xs) = insert x (set xs)"
  by (induction xs) auto

lemma mset_py_insort [simp]: "mset (py_insort lt key x xs) = add_mset x (mset xs)"
  by (induction xs) auto

lemma mset_py_sort [simp]: "mset (py_sort lt key xs) = mset xs"
  by (induction xs) (simp_all add: py_sort_def)

lemma set_py_sort [simp]: "set (py_sort lt key xs) = set xs"
  by (metis mset_py_sort set_mset_mset)

lemma filter_py_sort_single:
  assumes "filter P xs = [e]"
  shows "filter P (py_sort lt key xs) = [e]"
proof -
  have "mset (filter P (py_sort lt key xs)) = mset (filter P xs)"
    by simp
  also have "\<dots> = {#e#}"
    by (simp only: assms) simp
  finally show ?thesis by (simp only: mset_single_iff)
qed

lemma sum_list_py_sort:
  "sum_list (map f (py_sort lt key xs)) = sum_list (map (f :: 'a \<Rightarrow> nat) xs)"
proof -
  have "mset (map f (py_sort lt key xs)) = mset (map f xs)"
    by simp
  then show ?thesis by (metis sum_mset_sum_list)
qed

lemma py_insort_stable:
  assumes "\<And>k'. \<not> lt k' k'"
  shows "filter (\<lambda>y. key y = k) (py_insort lt key x xs) = filter (\<lambda>y. key y = k) (x # xs)"
  using assms by (induction xs) auto

lemma py_sort_stable:
  assumes "\<And>k'. \<not> lt k' k'"
  shows "filter (\<lambda>y. key y = k) (py_sort lt key xs) = filter (\<lambda>y. key y = k) xs"
proof (induction xs)
  case Nil
  then show ?case by (simp add: py_sort_def)
next
  case (Cons x xs)
  have "py_sort lt key (x # xs) = py_insort lt key x (py_sort lt key xs)"
    by (simp add: py_sort_def)
  then show ?case
    using py_insort_stable [of lt key k x "py_sort lt key xs", OF assms] Cons by simp
qed

lemma py_insort_run:
  "(xs \<noteq> [] \<longrightarrow> \<not> lt (key (hd xs)) (key x)) \<Longrightarrow> py_insort lt key x xs = x # xs"
  by (cases xs) simp_all

lemma py_sort_run:
  "\<forall>i. Suc i < length xs \<longrightarrow> \<not> lt (key (xs ! Suc i)) (key (xs ! i)) \<Longrightarrow> py_sort lt key xs = xs"
proof (induction xs)
  case Nil
  then show ?case by (simp add: py_sort_def)
next
  case (Cons x xs)
  have "\<forall>i. Suc i < length xs \<longrightarrow> \<not> lt (key (xs ! Suc i)) (key (xs ! i))"
  proof (intro allI impI)
    fix i assume "Suc i < length xs"
    with Cons.prems have "\<not> lt (key ((x # xs) ! Suc (Suc i))) (key ((x # xs) ! Suc i))"
      by (metis Suc_less_eq length_Cons)
    then show "\<not> lt (key (xs ! Suc i)) (key (xs ! i))" by simp
  qed
  then have s: "py_sort lt key xs = xs" by (rule Cons.IH)
  have "xs \<noteq> [] \<longrightarrow> \<not> lt (key (hd xs)) (key x)"
  proof
    assume "xs \<noteq> []"
    then have "Suc 0 < length (x # xs)" by (cases xs) simp_all
    with Cons.prems have "\<not> lt (key ((x # xs) ! Suc 0)) (key ((x # xs) ! 0))" by blast
    with \<open>xs \<noteq> []\<close> show "\<not> lt (key (hd xs)) (key x)" by (cases xs) simp_all
  qed
  then have "py_insort lt key x xs = x # xs" by (rule py_insort_run)
  with s show ?case by (simp add: py_sort_def)
qed

lemma tuple_lt_irrefl: "\<not> tuple_lt k k"
  by (simp add: tuple_lt_def flt_def split: option.splits)

lemma tuple_lt_protein_le:
  assumes "avg_total_score a \<noteq> None" "avg_total_score b \<noteq> None"
  shows "tuple_lt (protein_key b) (protein_key a) \<longleftrightarrow> \<not> protein_le a b"
  using assms by (auto simp: tuple_lt_def protein_key_def protein_le_def flt_def)

lemma protein_le_trans:
  "protein_le a b \<Longrightarrow> protein_le b c \<Longrightarrow> protein_le a c"
  by (auto simp: protein_le_def split: option.splits)

lemma protein_le_total:
  assumes "avg_total_score a \<noteq> None" "avg_total_score b \<noteq> None"
  shows "protein_le a b \<or> protein_le b a"
  using assms by (auto simp: protein_le_def)

lemma sorted_py_insort_protein:
  assumes "avg_total_score x \<noteq> None" "\<forall>y\<in>set xs. avg_total_score y \<noteq> None"
    and "sorted_wrt protein_le xs"
  shows "sorted_wrt protein_le (py_insort tuple_lt protein_key x xs)"
  using assms
proof (induction xs)
  case Nil
  then show ?case by simp
next
  case (Cons y ys)
  show ?case
  proof (cases "tuple_lt (protein_key y) (protein_key x)")
    case True
    then have "\<not> protein_le x y"
      using tuple_lt_protein_le [of x y] Cons.prems by simp
    then have yx: "protein_le y x"
      using protein_le_total [of x y] Cons.prems by auto
    have "sorted_wrt protein_le (py_insort tuple_lt protein_key x ys)"
      using Cons by simp
    moreover have "\<forall>z\<in>set (py_insort tuple_lt protein_key x ys). protein_le y z"
    proof
      fix z assume "z \<in> set (py_insort tuple_lt protein_key x ys)"
      then have "z = x \<or> z \<in> set ys" by simp
      then show "protein_le y z" using yx Cons.prems by auto
    qed
    ultimately show ?thesis using True by simp
  next
    case False
    then have xy: "protein_le x y"
      using tuple_lt_protein_le [of x y] Cons.prems by simp
    then have "\<forall>z\<in>set ys. protein_le x z"
      using Cons.prems protein_le_trans by auto
    then show ?thesis using False xy Cons.prems by simp
  qed
qed

lemma sorted_py_sort_protein:
  assumes "\<forall>y\<in>set xs. avg_total_score y \<noteq> None"
  shows "sorted_wrt protein_le (py_sort tuple_lt protein_key xs)"
  using assms
proof (induction xs)
  case Nil
  then show ?case by (simp add: py_sort_def)
next
  case (Cons x xs)
  have "py_sort tuple_lt protein_key (x # xs)
      = py_insort tuple_lt protein_key x (py_sort tuple_lt protein_key xs)"
    by (simp add: py_sort_def)
  then show ?case
    using sorted_py_insort_protein [of x "py_sort tuple_lt protein_key xs"] Cons by simp
qed

section \<open>Properties of the protein ranking\<close>

lemma stats_loop_snoc:
  "stats_loop (es @ [e]) acc = stats_loop [e] (stats_loop es acc)"
  by (induction es arbitrary: acc) (simp_all add: Let_def)

lemma wins_snoc: "wins p (es @ [e]) = wins p es @ (if best_protein e = p then [e] else [])"
  by (simp add: wins_def)

lemma wins_empty_iff: "wins p es = [] \<longleftrightarrow> p \<notin> best_protein ` set es"
  by (auto simp: wins_def filter_empty_conv)

lemma stats_loop_keys: "map fst (stats_loop es []) = first_seen (map best_protein es)"
proof (induction es rule: rev_induct)
  case Nil
  then show ?case by simp
next
  case (snoc e es)
  then show ?case
    by (simp add: stats_loop_snoc Let_def keys_dict_set first_seen_snoc)
qed

lemma stats_loop_values:
  "map_of (stats_loop es []) p = (if wins p es = [] then None else Some (stat_of (wins p es)))"
proof (induction es rule: rev_induct)
  case Nil
  then show ?case by (simp add: wins_def)
next
  case (snoc e es)
  show ?case
  proof (cases "best_protein e = p")
    case True
    then show ?thesis
      by (cases "wins p es = []")
         (simp_all add: stats_loop_snoc Let_def wins_snoc stat_of_def snoc)
  next
    case False
    then show ?thesis
      using snoc by (simp add: stats_loop_snoc Let_def wins_snoc)
  qed
qed

lemma stats_loop_closed:
  "stats_loop es [] = map (\<lambda>p. (p, stat_of (wins p es))) (first_seen (map best_protein es))"
proof -
  have d: "distinct (map fst (stats_loop es []))"
    by (simp add: stats_loop_keys)
  have "\<forall>p\<in>set (map fst (stats_loop es [])). map_of (stats_loop es []) p = Some (stat_of (wins p es))"
    unfolding stats_loop_keys stats_loop_values
    by (auto simp: wins_empty_iff)
  from dict_closed_form [OF d this] show ?thesis
    by (simp add: stats_loop_keys)
qed

lemma foldl_fadd_Some:
  "\<forall>v\<in>set xs. v \<noteq> None \<Longrightarrow> foldl fadd (Some a) xs = Some (a + sum_list (map num xs))"
  by (induction xs arbitrary: a) (auto simp: fadd_def num_def)

lemma np_mean_Some:
  assumes "xs \<noteq> []" "\<forall>v\<in>set xs. v \<noteq> None"
  shows "np_mean xs = Some (sum_list (map num xs) / real (length xs))"
  using assms by (simp add: np_mean_def foldl_fadd_Some fdiv_def)

lemma sum_indicator_distinct:
  "distinct xs \<Longrightarrow> (\<Sum>p\<leftarrow>xs. if p = q then 1 else 0) = (if q \<in> set xs then 1 else (0::nat))"
  by (induction xs) auto

lemma sum_wins_length:
  "(\<Sum>p\<leftarrow>first_seen (map best_protein es). length (wins p es)) = length es"
proof (induction es rule: rev_induct)
  case Nil
  then show ?case by simp
next
  case (snoc e es)
  let ?seen = "first_seen (map best_protein es)"
  let ?q = "best_protein e"
  have split: "(\<Sum>p\<leftarrow>?seen. length (wins p (es @ [e])))
      = (\<Sum>p\<leftarrow>?seen. length (wins p es)) + (\<Sum>p\<leftarrow>?seen. if p = ?q then 1 else 0)"
    by (simp add: wins_snoc sum_list_addf [symmetric] if_distrib [of length] eq_commute cong: if_cong)
  show ?case
  proof (cases "?q \<in> set (map best_protein es)")
    case True
    then show ?thesis
      using snoc split sum_indicator_distinct [of ?seen ?q]
      by (simp add: first_seen_snoc)
  next
    case False
    then have "wins ?q es = []" by (simp add: wins_empty_iff)
    then show ?thesis
      using False snoc split sum_indicator_distinct [of ?seen ?q]
      by (simp add: first_seen_snoc wins_snoc)
  qed
qed

lemma rank_proteins_closed:
  "rank_proteins es =
     py_sort tuple_lt protein_key
       (map (\<lambda>p. make_protein_entry (p, stat_of (wins p es))) (first_seen (map best_protein es)))"
  by (cases "es = []") (simp_all add: rank_proteins_def stats_loop_closed py_sort_def comp_def)

text \<open>
  The protein ranking of a list of Conformation Ranking Entries whose total scores are
  numbers (no NaN): the list that \<open>rank_proteins\<close> returns is sorted by win count,
  descending, and among equal win counts by mean total score, ascending; the entries that
  tie on both keys stand in the order in which their proteins were first seen; it holds
  one entry per protein that won at least one conformation, with the number of its wins
  and the arithmetic mean of the total scores of its wins; and the win counts sum to the
  number of Conformation Ranking Entries.
\<close>

lemma rank_proteins_ordered_numbers:
  assumes "\<forall>e\<in>set es. total_score e \<noteq> None"
  shows "let res = rank_proteins es; seen = first_seen (map best_protein es)
         in sorted_wrt protein_le res
          \<and> (\<forall>c m. map ranked_protein_name
                      (filter (\<lambda>x. best_count x = c \<and> avg_total_score x = m) res)
                 = filter (\<lambda>p. length (wins p es) = c
                               \<and> np_mean (map total_score (wins p es)) = m) seen)
          \<and> distinct (map ranked_protein_name res)
          \<and> set (map ranked_protein_name res) = best_protein ` set es
          \<and> (\<forall>x\<in>set res.
                0 < best_count x
              \<and> best_count x = length (wins (ranked_protein_name x) es)
              \<and> avg_total_score x =
                  Some (sum_list (map (num \<circ> total_score) (wins (ranked_protein_name x) es))
                        / real (best_count x)))
          \<and> sum_list (map best_count res) = length es"
proof -
  let ?seen = "first_seen (map best_protein es)"
  let ?mk = "\<lambda>p. make_protein_entry (p, stat_of (wins p es))"
  let ?un = "map ?mk ?seen"
  let ?res = "rank_proteins es"
  have res: "?res = py_sort tuple_lt protein_key ?un"
    by (rule rank_proteins_closed)
  have name: "ranked_protein_name (?mk p) = p" for p
    by (simp add: make_protein_entry_def)
  have cnt: "best_count (?mk p) = length (wins p es)" for p
    by (simp add: make_protein_entry_def stat_of_def)
  have avg: "avg_total_score (?mk p) = np_mean (map total_score (wins p es))" for p
    by (simp add: make_protein_entry_def stat_of_def)
  have won: "wins p es \<noteq> []" if "p \<in> set ?seen" for p
    using that by (simp add: wins_empty_iff)
  have tot: "\<forall>v\<in>set (map total_score (wins p es)). v \<noteq> None" for p
    using assms by (auto simp: wins_def)
  have avg': "avg_total_score (?mk p)
      = Some (sum_list (map (num \<circ> total_score) (wins p es)) / real (length (wins p es)))"
    if "p \<in> set ?seen" for p
    using np_mean_Some [OF _ tot [of p]] won [OF that] by (simp add: avg)
  have notnan: "\<forall>y\<in>set ?un. avg_total_score y \<noteq> None"
    using avg' by auto
  have s1: "sorted_wrt protein_le ?res"
    unfolding res using notnan by (rule sorted_py_sort_protein)
  have s2: "map ranked_protein_name (filter (\<lambda>x. best_count x = c \<and> avg_total_score x = m) ?res)
      = filter (\<lambda>p. length (wins p es) = c \<and> np_mean (map total_score (wins p es)) = m) ?seen"
    for c m
  proof -
    have eq: "(\<lambda>x. best_count x = c \<and> avg_total_score x = m)
        = (\<lambda>x. protein_key x = (- int c, m))"
      by (auto simp: protein_key_def fun_eq_iff)
    have "filter (\<lambda>x. best_count x = c \<and> avg_total_score x = m) ?res
        = filter (\<lambda>x. best_count x = c \<and> avg_total_score x = m) ?un"
      unfolding eq res by (rule py_sort_stable) (rule tuple_lt_irrefl)
    then show ?thesis
      by (simp add: filter_map comp_def name cnt avg)
  qed
  have names: "mset (map ranked_protein_name ?res) = mset ?seen"
    unfolding res by (simp add: multiset.map_comp comp_def name)
  have s3: "distinct (map ranked_protein_name ?res)"
    using names by (metis distinct_first_seen mset_eq_imp_distinct_iff)
  have s4: "set (map ranked_protein_name ?res) = best_protein ` set es"
    using names by (metis mset_eq_setD set_first_seen set_map)
  have s5: "0 < best_count x \<and> best_count x = length (wins (ranked_protein_name x) es)
       \<and> avg_total_score x =
           Some (sum_list (map (num \<circ> total_score) (wins (ranked_protein_name x) es))
                 / real (best_count x))"
    if "x \<in> set ?res" for x
  proof -
    from that obtain p where p: "p \<in> set ?seen" "x = ?mk p"
      unfolding res by auto
    show ?thesis
      using won [OF p(1)] avg' [OF p(1)] unfolding p(2) name cnt by simp
  qed
  have s6: "sum_list (map best_count ?res) = length es"
    unfolding res sum_list_py_sort
    using sum_wins_length [of es] by (simp add: comp_def cnt)
  show ?thesis
    unfolding Let_def using s1 s2 s3 s4 s5 s6 by blast
qed

lemma rank_proteins_ordered_example:
  "sorted_wrt protein_le (rank_proteins example_ranking)
   \<and> distinct (map ranked_protein_name (rank_proteins example_ranking))
   \<and> set (map ranked_protein_name (rank_proteins example_ranking)) = {''A'', ''B''}
   \<and> sum_list (map best_count (rank_proteins example_ranking)) = 3"
proof -
  have h: "\<forall>e\<in>set example_ranking. total_score e \<noteq> None"
    by (simp add: example_ranking_def del: not_None_eq)
  have s: "best_protein ` set example_ranking = {''A'', ''B''}"
    by (auto simp: example_ranking_def)
  have l: "length example_ranking = 3"
    by (simp add: example_ranking_def)
  from rank_proteins_ordered_numbers [OF h, unfolded Let_def] s l
  show ?thesis by simp
qed

section \<open>Properties of the conformation ranking\<close>

lemma inner_dict_snoc:
  "inner_dict sc (rs @ [r]) = dict_set (protein_name r) (sc r) (inner_dict sc rs)"
  by (simp add: inner_dict_def)

lemma inner_dict_keys: "map fst (inner_dict sc rs) = first_seen (map protein_name rs)"
proof (induction rs rule: rev_induct)
  case Nil
  then show ?case by (simp add: inner_dict_def)
next
  case (snoc r rs)
  then show ?case
    by (simp add: inner_dict_snoc keys_dict_set first_seen_snoc)
qed

lemma inner_dict_values:
  "map_of (inner_dict sc rs) p =
     (if p \<in> protein_name ` set rs
      then Some (sc (last (filter (\<lambda>r. protein_name r = p) rs))) else None)"
proof (induction rs rule: rev_induct)
  case Nil
  then show ?case by (simp add: inner_dict_def)
next
  case (snoc r rs)
  then show ?case
    by (auto simp: inner_dict_snoc)
qed

lemma inner_dict_closed:
  "inner_dict sc rs =
     map (\<lambda>p. (p, sc (last (filter (\<lambda>r. protein_name r = p) rs))))
       (first_seen (map protein_name rs))"
proof -
  have d: "distinct (map fst (inner_dict sc rs))"
    by (simp add: inner_dict_keys)
  have "\<forall>p\<in>set (map fst (inner_dict sc rs)).
      map_of (inner_dict sc rs) p = Some (sc (last (filter (\<lambda>r. protein_name r = p) rs)))"
    unfolding inner_dict_keys inner_dict_values by auto
  from dict_closed_form [OF d this] show ?thesis
    by (simp add: inner_dict_keys)
qed

lemma pairs_loop_snoc:
  "pairs_loop sel weights dw ew ow (rows @ [r]) acc =
     (case pairs_loop sel weights dw ew ow rows acc of
        Inl err \<Rightarrow> Inl err
      | Inr c \<Rightarrow> pairs_loop sel weights dw ew ow [r] c)"
proof (induction rows arbitrary: acc)
  case Nil
  then show ?case by (simp add: Let_def split: sum.splits prod.splits)
next
  case (Cons a rows)
  show ?case
    by (cases "calculate_composite_score a sel weights dw ew ow")
       (auto simp: Let_def Cons simp del: pairs_loop.simps(2)
             simp add: pairs_loop.simps(2) [of _ _ _ _ _ a] split: prod.splits)
qed

lemma pairs_loop_single:
  assumes "pairs_loop sel weights dw ew ow [r] c0 = Inr c"
  shows "(\<exists>s. calculate_composite_score r sel weights dw ew ow = Inr s)
       \<and> c = dict_set (conformation_id r)
               (dict_set (protein_name r) (scored sel weights dw ew ow r)
                  (case map_of c0 (conformation_id r) of Some inner \<Rightarrow> inner | None \<Rightarrow> []))
               (if map_of c0 (conformation_id r) = None
                then dict_set (conformation_id r) [] c0 else c0)"
  using assms
  by (cases "calculate_composite_score r sel weights dw ew ow")
     (auto simp: Let_def conformation_id_def scored_def split: prod.splits)

lemma pairs_loop_keys:
  "pairs_loop sel weights dw ew ow rows [] = Inr c \<Longrightarrow>
     map fst c = first_seen (map conformation_id rows)"
proof (induction rows arbitrary: c rule: rev_induct)
  case Nil
  then show ?case by simp
next
  case (snoc r rows)
  from snoc.prems obtain c0 where c0: "pairs_loop sel weights dw ew ow rows [] = Inr c0"
    and step: "pairs_loop sel weights dw ew ow [r] c0 = Inr c"
    by (auto simp: pairs_loop_snoc split: sum.splits)
  have k0: "map fst c0 = first_seen (map conformation_id rows)"
    using snoc.IH c0 by simp
  have none: "map_of c0 (conformation_id r) = None \<longleftrightarrow> conformation_id r \<notin> set (map fst c0)"
    by (simp add: map_of_eq_None_iff)
  let ?cid = "conformation_id r"
  let ?c1 = "if map_of c0 ?cid = None then dict_set ?cid [] c0 else c0"
  have k1: "map fst ?c1 = (if ?cid \<in> set (map fst c0) then map fst c0 else map fst c0 @ [?cid])"
    using none by (simp add: keys_dict_set)
  then have in1: "?cid \<in> set (map fst ?c1)"
    by (simp split: if_splits)
  have "map fst c = map fst ?c1"
    using pairs_loop_single [OF step] in1 by (simp only: keys_dict_set if_True)
  then show ?case
    using k1 k0 by (simp add: first_seen_snoc)
qed

lemma pairs_loop_values:
  "pairs_loop sel weights dw ew ow rows [] = Inr c \<Longrightarrow>
     map_of c cid =
       (if cid \<in> conformation_id ` set rows
        then Some (inner_dict (scored sel weights dw ew ow)
                     (filter (\<lambda>r. conformation_id r = cid) rows))
        else None)"
proof (induction rows arbitrary: c cid rule: rev_induct)
  case Nil
  then show ?case by simp
next
  case (snoc r rows)
  from snoc.prems obtain c0 where c0: "pairs_loop sel weights dw ew ow rows [] = Inr c0"
    and step: "pairs_loop sel weights dw ew ow [r] c0 = Inr c"
    by (auto simp: pairs_loop_snoc split: sum.splits)
  let ?sc = "scored sel weights dw ew ow"
  have v0: "map_of c0 cid' =
       (if cid' \<in> conformation_id ` set rows
        then Some (inner_dict ?sc (filter (\<lambda>r. conformation_id r = cid') rows))
        else None)" for cid'
    using snoc.IH [OF c0] by simp
  have inner0: "(case map_of c0 (conformation_id r) of Some inner \<Rightarrow> inner | None \<Rightarrow> [])
      = inner_dict ?sc (filter (\<lambda>r'. conformation_id r' = conformation_id r) rows)"
  proof (cases "conformation_id r \<in> conformation_id ` set rows")
    case True
    then show ?thesis by (simp add: v0)
  next
    case False
    then have "\<forall>r'\<in>set rows. conformation_id r' \<noteq> conformation_id r"
      by (metis image_eqI)
    then have "filter (\<lambda>r'. conformation_id r' = conformation_id r) rows = []"
      by (simp add: filter_empty_conv)
    then show ?thesis using False by (simp add: v0 inner_dict_def)
  qed
  have c: "c = dict_set (conformation_id r)
               (dict_set (protein_name r) (?sc r)
                  (inner_dict ?sc (filter (\<lambda>r'. conformation_id r' = conformation_id r) rows)))
               (if map_of c0 (conformation_id r) = None
                then dict_set (conformation_id r) [] c0 else c0)"
    using pairs_loop_single [OF step] inner0 by simp
  show ?case
  proof (cases "cid = conformation_id r")
    case True
    then show ?thesis
      unfolding c by (simp add: inner_dict_snoc)
  next
    case False
    then show ?thesis
      unfolding c using v0 [of cid] by auto
  qed
qed

lemma min_loop_first_minimum:
  assumes "\<forall>x\<in>set (b # xs). key x \<noteq> None"
  shows "min_loop key b xs \<in> set (b # xs)
       \<and> (\<forall>x\<in>set (b # xs). num (key (min_loop key b xs)) \<le> num (key x))
       \<and> min_loop key b xs = hd (filter (\<lambda>x. key x = key (min_loop key b xs)) (b # xs))"
  using assms
proof (induction xs arbitrary: b)
  case Nil
  then show ?case by simp
next
  case (Cons x xs)
  obtain kb kx where kb: "key b = Some kb" and kx: "key x = Some kx"
    using Cons.prems by auto
  show ?case
  proof (cases "flt (key x) (key b)")
    case True
    let ?m = "min_loop key x xs"
    have m: "min_loop key b (x # xs) = ?m" using True by simp
    have pre: "\<forall>y\<in>set (x # xs). key y \<noteq> None"
      using Cons.prems by auto
    from Cons.IH [OF pre] have mem: "?m \<in> set (x # xs)"
      and least: "\<forall>y\<in>set (x # xs). num (key ?m) \<le> num (key y)"
      and first: "?m = hd (filter (\<lambda>y. key y = key ?m) (x # xs))"
      by blast+
    obtain km where km: "key ?m = Some km"
      using mem pre by (metis not_None_eq)
    have lt: "kx < kb" using True by (simp add: flt_def kb kx)
    have le: "km \<le> kx" using least by (simp add: km kx num_def)
    have nb: "key b \<noteq> key ?m" using lt le by (simp add: kb km)
    have "?m \<in> set (b # x # xs)" using mem by auto
    moreover have "\<forall>y\<in>set (b # x # xs). num (key ?m) \<le> num (key y)"
      using least lt le by (auto simp: km kb num_def)
    moreover have "?m = hd (filter (\<lambda>y. key y = key ?m) (b # x # xs))"
      using first nb by simp
    ultimately show ?thesis unfolding m by blast
  next
    case False
    let ?m = "min_loop key b xs"
    have m: "min_loop key b (x # xs) = ?m" using False by simp
    have pre: "\<forall>y\<in>set (b # xs). key y \<noteq> None"
      using Cons.prems by auto
    from Cons.IH [OF pre] have mem: "?m \<in> set (b # xs)"
      and least: "\<forall>y\<in>set (b # xs). num (key ?m) \<le> num (key y)"
      and first: "?m = hd (filter (\<lambda>y. key y = key ?m) (b # xs))"
      by blast+
    obtain km where km: "key ?m = Some km"
      using mem pre by (metis not_None_eq)
    have ge: "kb \<le> kx" using False by (simp add: flt_def kb kx)
    have kmb: "km \<le> kb" using least by (simp add: km kb num_def)
    have "?m \<in> set (b # x # xs)" using mem by auto
    moreover have "\<forall>y\<in>set (b # x # xs). num (key ?m) \<le> num (key y)"
      using least ge kmb by (auto simp: km kx num_def)
    moreover have "?m = hd (filter (\<lambda>y. key y = key ?m) (b # x # xs))"
    proof (cases "key b = key ?m")
      case True
      then have "hd (filter (\<lambda>y. key y = key ?m) (b # xs)) = b" by simp
      then have "?m = b" by (rule trans [OF first])
      then show ?thesis by simp
    next
      case nb: False
      then have "km < kb" using kmb by (simp add: km kb)
      then have "key x \<noteq> key ?m" using ge by (simp add: km kx)
      then show ?thesis using first nb by simp
    qed
    ultimately show ?thesis unfolding m by blast
  qed
qed

lemma best_loop_ids:
  "best_loop confs = Inr result \<Longrightarrow> map conf_id result = map fst confs"
proof (induction confs arbitrary: result)
  case Nil
  then show ?case by simp
next
  case (Cons c confs)
  obtain cid ps where c: "c = (cid, ps)" by (cases c)
  from Cons.prems c obtain best rest where
    "py_min (\<lambda>x. total_score (snd x)) ps = Inr best" "best_loop confs = Inr rest"
    "result = make_entry cid best # rest"
    by (auto split: sum.splits)
  then show ?case using Cons.IH c by (simp add: make_entry_def)
qed

lemma best_loop_entry:
  assumes "best_loop confs = Inr result" "distinct (map fst confs)" "map_of confs cid = Some ps"
  shows "ps \<noteq> []
       \<and> filter (\<lambda>e. conf_id e = cid) result
           = [make_entry cid (min_loop (\<lambda>x. total_score (snd x)) (hd ps) (tl ps))]"
  using assms
proof (induction confs arbitrary: result)
  case Nil
  then show ?case by simp
next
  case (Cons c confs)
  obtain cid' ps' where c: "c = (cid', ps')" by (cases c)
  from Cons.prems(1) c obtain best rest where
    best: "py_min (\<lambda>x. total_score (snd x)) ps' = Inr best"
    and rest: "best_loop confs = Inr rest"
    and result: "result = make_entry cid' best # rest"
    by (auto split: sum.splits)
  have ids: "map conf_id rest = map fst confs"
    using best_loop_ids [OF rest] .
  show ?case
  proof (cases "cid' = cid")
    case True
    then have ps: "ps' = ps" using Cons.prems(3) c by simp
    have ne: "ps \<noteq> []" and b: "best = min_loop (\<lambda>x. total_score (snd x)) (hd ps) (tl ps)"
      using best ps by (auto simp: py_min_def split: list.splits)
    have "cid \<notin> set (map conf_id rest)"
      using Cons.prems(2) c True ids by simp
    then have "filter (\<lambda>e. conf_id e = cid) rest = []"
      by (auto simp: filter_empty_conv)
    then show ?thesis
      using ne b result True by (simp add: make_entry_def)
  next
    case False
    then have "map_of confs cid = Some ps" using Cons.prems(3) c by simp
    then show ?thesis
      using Cons.IH [OF rest] Cons.prems(2) result False by (simp add: make_entry_def)
  qed
qed

lemma in_set_nonempty: "x \<in> set xs \<Longrightarrow> xs \<noteq> []"
  by auto

lemma min_loop_mem: "min_loop key b xs \<in> set (b # xs)"
  by (induction xs arbitrary: b) auto

lemma raw_data_scored [simp]: "raw_data (scored sel weights dw ew ow r) = r"
  by (simp add: scored_def split: sum.splits prod.splits)

text \<open>
  Claim C3, as amended. When \<open>rank_conformations\<close> returns, its result holds exactly one
  entry for every conformation identity of the table. The candidates of an identity are
  one per protein, in the order in which the proteins first appear among the rows of the
  identity, and the candidate of a protein is the last row of that identity and protein:
  the scores are stored in a dict keyed by protein, so a later duplicate row replaces the
  earlier one. The entry carries the protein, the scores and the row of one candidate;
  when the total scores of the candidates are numbers, it is the candidate of minimum
  total score, and among candidates of equal minimum total score the first one.
\<close>

theorem rank_conformations_selects_minimum:
  assumes "rank_conformations cfg data sel weights = Inr result"
      and "cid \<in> conformation_id ` set data"
  shows "let rows_c = filter (\<lambda>r. conformation_id r = cid) data;
             proteins = first_seen (map protein_name rows_c);
             cand = (\<lambda>p. pair_of_row cfg sel weights
                            (last (filter (\<lambda>r. protein_name r = p) rows_c)))
         in \<exists>e. filter (\<lambda>e. conf_id e = cid) result = [e]
              \<and> best_protein e \<in> set proteins
              \<and> total_score e = total_score (cand (best_protein e))
              \<and> docking_score e = docking_score (cand (best_protein e))
              \<and> energy_score e = energy_score (cand (best_protein e))
              \<and> raw_data e = last (filter (\<lambda>r. protein_name r = best_protein e) rows_c)
              \<and> ((\<forall>p\<in>set proteins. total_score (cand p) \<noteq> None) \<longrightarrow>
                    (\<forall>p\<in>set proteins. num (total_score e) \<le> num (total_score (cand p)))
                  \<and> best_protein e
                      = hd (filter (\<lambda>p. total_score (cand p) = total_score e) proteins))"
proof -
  let ?dw = "py_or (config_get cfg ''scoring'' ''docking_weight'') 0.4"
  let ?ew = "py_or (config_get cfg ''scoring'' ''energy_weight'') 0.4"
  let ?ow = "py_or (config_get cfg ''scoring'' ''optional_weight'') 0.2"
  let ?sc = "scored sel weights ?dw ?ew ?ow"
  let ?rows = "filter (\<lambda>r. conformation_id r = cid) data"
  let ?proteins = "first_seen (map protein_name ?rows)"
  let ?cand = "\<lambda>p. pair_of_row cfg sel weights (last (filter (\<lambda>r. protein_name r = p) ?rows))"
  let ?key = "\<lambda>x :: string \<times> pair_score. total_score (snd x)"
  let ?g = "\<lambda>p. (p, ?cand p)"
  have ne: "data \<noteq> []" using assms(2) by auto
  from assms(1) ne obtain confs res0 where
    confs: "pairs_loop sel weights ?dw ?ew ?ow data [] = Inr confs"
    and res0: "best_loop confs = Inr res0"
    and result: "result = py_sort flt total_score res0"
    by (auto simp: rank_conformations_def score_conformation_protein_pairs_def Let_def
             py_sort_def split: sum.splits if_splits)
  have keys: "distinct (map fst confs)"
    using pairs_loop_keys [OF confs] by simp
  have val: "map_of confs cid = Some (inner_dict ?sc ?rows)"
    using pairs_loop_values [OF confs, of cid] assms(2) by simp
  have ps: "inner_dict ?sc ?rows = map ?g ?proteins"
    by (simp add: inner_dict_closed pair_of_row_def)
  let ?ps = "map ?g ?proteins"
  let ?m = "min_loop ?key (hd ?ps) (tl ?ps)"
  let ?e = "make_entry cid ?m"
  from best_loop_entry [OF res0 keys val]
  have psne: "?ps \<noteq> []" and f0: "filter (\<lambda>e. conf_id e = cid) res0 = [?e]"
    unfolding ps by simp_all
  have f: "filter (\<lambda>e. conf_id e = cid) result = [?e]"
    unfolding result using f0 by (rule filter_py_sort_single)
  have hdtl: "hd ?ps # tl ?ps = ?ps" using psne by simp
  have "?m \<in> set (hd ?ps # tl ?ps)" by (rule min_loop_mem)
  then have mem: "?m \<in> set ?ps" unfolding hdtl .
  then obtain p where p: "p \<in> set ?proteins" "?m = ?g p" by auto
  have bp: "best_protein ?e = p" and sn: "snd ?m = ?cand p"
    using p(2) by (simp_all add: make_entry_def)
  have e1: "best_protein ?e \<in> set ?proteins" using bp p(1) by simp
  have e2: "total_score ?e = total_score (?cand (best_protein ?e))"
    "docking_score ?e = docking_score (?cand (best_protein ?e))"
    "energy_score ?e = energy_score (?cand (best_protein ?e))"
    unfolding bp using sn by (simp_all add: make_entry_def)
  have e3: "raw_data ?e = last (filter (\<lambda>r. protein_name r = best_protein ?e) ?rows)"
    unfolding bp using sn by (simp add: make_entry_def pair_of_row_def)
  have e4: "(\<forall>q\<in>set ?proteins. num (total_score ?e) \<le> num (total_score (?cand q)))
          \<and> best_protein ?e = hd (filter (\<lambda>q. total_score (?cand q) = total_score ?e) ?proteins)"
    if nn: "\<forall>q\<in>set ?proteins. total_score (?cand q) \<noteq> None"
  proof -
    have pre: "\<forall>x\<in>set (hd ?ps # tl ?ps). ?key x \<noteq> None"
      unfolding hdtl using nn by simp
    from min_loop_first_minimum [of "hd ?ps" "tl ?ps" ?key, OF pre]
    have least: "\<forall>x\<in>set ?ps. num (?key ?m) \<le> num (?key x)"
      and first: "?m = hd (filter (\<lambda>x. ?key x = ?key ?m) ?ps)"
      unfolding hdtl by blast+
    have te: "total_score ?e = ?key ?m" by (simp add: make_entry_def)
    have a: "\<forall>q\<in>set ?proteins. num (total_score ?e) \<le> num (total_score (?cand q))"
      unfolding te using least by simp
    let ?l = "filter (\<lambda>q. total_score (?cand q) = ?key ?m) ?proteins"
    have fl: "filter (\<lambda>x. ?key x = ?key ?m) ?ps = map ?g ?l"
      by (simp add: filter_map comp_def)
    have "p \<in> set ?l" using p sn by simp
    then have lne: "?l \<noteq> []" by (rule in_set_nonempty)
    have m1: "?m = hd (map ?g ?l)"
      using first unfolding fl .
    have "hd (map ?g ?l) = ?g (hd ?l)"
      using lne by (rule hd_map)
    with m1 have m2: "?m = ?g (hd ?l)" by (rule trans)
    have "best_protein ?e = fst ?m" by (simp add: make_entry_def)
    also have "fst ?m = fst (?g (hd ?l))" by (rule arg_cong [OF m2])
    also have "\<dots> = hd ?l" by (rule fst_conv)
    finally have b: "best_protein ?e = hd ?l" .
    show ?thesis using a b unfolding te by (rule conjI)
  qed
  show ?thesis
    unfolding Let_def
    using f e1 e2 e3 e4 by (intro exI [of _ ?e]) blast
qed

lemma dup_scores:
  "calculate_composite_score dup_row_first REQUIRED_METRICS Map.empty (2/5) (2/5) (1/5)
     = Inr (Some (1/2), Some 0, Some 1)"
  "calculate_composite_score dup_row_second REQUIRED_METRICS Map.empty (2/5) (2/5) (1/5)
     = Inr (Some 1, Some 1, Some 1)"
  by (simp_all add: dup_row_first_def dup_row_second_def
        calculate_composite_score_def calculate_optional_score_def
        calculate_docking_score_def calculate_energy_score_def calculate_weighted_score_def
        REQUIRED_METRICS_def OPTIONAL_METRICS_def DOCKING_METRICS_def ENERGY_METRICS_def
        col_in_row_iff get_normalized_column_name_def get_normalized_value_def weight_get_def
        fadd_def fmul_def fdiv_def Let_def)

lemma default_weights:
  "py_or (config_get DEFAULT_CONFIG ''scoring'' ''docking_weight'') (2/5) = 2/5"
  "py_or (config_get DEFAULT_CONFIG ''scoring'' ''energy_weight'') (2/5) = 2/5"
  "py_or (config_get DEFAULT_CONFIG ''scoring'' ''optional_weight'') (1/5) = 1/5"
  by (simp_all add: DEFAULT_CONFIG_def config_get_def py_or_def)

lemma dup_ids:
  "title dup_row_first = 1" "lignum dup_row_first = 1" "protein_name dup_row_first = ''A''"
  "title dup_row_second = 1" "lignum dup_row_second = 1" "protein_name dup_row_second = ''A''"
  by (simp_all add: dup_row_first_def dup_row_second_def)

lemma dup_pairs:
  "score_conformation_protein_pairs DEFAULT_CONFIG [dup_row_first, dup_row_second]
     REQUIRED_METRICS Map.empty
   = Inr [((1, 1), [(''A'', \<lparr>total_score = Some 1, docking_score = Some 1,
                             energy_score = Some 1, raw_data = dup_row_second\<rparr>)])]"
  by (simp add: score_conformation_protein_pairs_def default_weights dup_scores dup_ids Let_def)

lemma dup_ranking:
  "rank_conformations DEFAULT_CONFIG [dup_row_first, dup_row_second] REQUIRED_METRICS Map.empty
   = Inr [\<lparr>total_score = Some 1, docking_score = Some 1, energy_score = Some 1,
            raw_data = dup_row_second, conf_id = (1, 1), best_protein = ''A''\<rparr>]"
  by (simp add: rank_conformations_def dup_pairs py_min_def make_entry_def py_sort_def)

lemma tie_row_sel [simp]:
  "title (tie_row t p d e) = t" "lignum (tie_row t p d e) = 1" "protein_name (tie_row t p d e) = p"
  by (simp_all add: tie_row_def)

lemma tie_row_eq [simp]:
  "tie_row t p d e = tie_row t' p' d' e' \<longleftrightarrow> t = t' \<and> p = p' \<and> d = d' \<and> e = e'"
proof
  assume eq: "tie_row t p d e = tie_row t' p' d' e'"
  then have "title (tie_row t p d e) = title (tie_row t' p' d' e')"
    and "protein_name (tie_row t p d e) = protein_name (tie_row t' p' d' e')"
    and "cells (tie_row t p d e) ''normalized_r_i_docking_score''
          = cells (tie_row t' p' d' e') ''normalized_r_i_docking_score''"
    and "cells (tie_row t p d e) ''normalized_r_i_glide_emodel''
          = cells (tie_row t' p' d' e') ''normalized_r_i_glide_emodel''"
    by simp_all
  then show "t = t' \<and> p = p' \<and> d = d' \<and> e = e'"
    by (simp add: tie_row_def)
qed simp

lemma tie_score:
  "calculate_composite_score (tie_row t p d e) REQUIRED_METRICS Map.empty (2/5) (2/5) (1/5)
     = Inr (Some (d / 2 + e / 2), Some d, Some e)"
  by (simp add: tie_row_def
        calculate_composite_score_def calculate_optional_score_def
        calculate_docking_score_def calculate_energy_score_def calculate_weighted_score_def
        REQUIRED_METRICS_def OPTIONAL_METRICS_def DOCKING_METRICS_def ENERGY_METRICS_def
        col_in_row_iff get_normalized_column_name_def get_normalized_value_def weight_get_def
        fadd_def fmul_def fdiv_def Let_def)

lemma tie_cand:
  "pair_of_row DEFAULT_CONFIG REQUIRED_METRICS Map.empty (tie_row t p d e)
     = \<lparr>total_score = Some (d / 2 + e / 2), docking_score = Some d, energy_score = Some e,
        raw_data = tie_row t p d e\<rparr>"
  by (simp add: pair_of_row_def scored_def default_weights tie_score)

lemma tie_pairs:
  "score_conformation_protein_pairs DEFAULT_CONFIG tie_data REQUIRED_METRICS Map.empty
   = Inr [((1, 1), [(''A'', \<lparr>total_score = Some (1/2), docking_score = Some 0,
                             energy_score = Some 1, raw_data = tie_row 1 ''A'' 0 1\<rparr>),
                    (''B'', \<lparr>total_score = Some (1/2), docking_score = Some 1,
                             energy_score = Some 0, raw_data = tie_row 1 ''B'' 1 0\<rparr>),
                    (''C'', \<lparr>total_score = Some 1, docking_score = Some 1,
                             energy_score = Some 1, raw_data = tie_row 1 ''C'' 1 1\<rparr>)]),
          ((2, 1), [(''C'', \<lparr>total_score = Some 0, docking_score = Some 0,
                             energy_score = Some 0, raw_data = tie_row 2 ''C'' 0 0\<rparr>)])]"
  by (simp add: score_conformation_protein_pairs_def tie_data_def default_weights tie_score Let_def)

lemma tie_ranking:
  "rank_conformations DEFAULT_CONFIG tie_data REQUIRED_METRICS Map.empty
   = Inr [\<lparr>total_score = Some 0, docking_score = Some 0, energy_score = Some 0,
            raw_data = tie_row 2 ''C'' 0 0, conf_id = (2, 1), best_protein = ''C''\<rparr>,
          \<lparr>total_score = Some (1/2), docking_score = Some 0, energy_score = Some 1,
            raw_data = tie_row 1 ''A'' 0 1, conf_id = (1, 1), best_protein = ''A''\<rparr>]"
proof -
  have ne: "tie_data \<noteq> []" by (simp add: tie_data_def)
  show ?thesis
    by (simp add: rank_conformations_def ne tie_pairs py_min_def make_entry_def py_sort_def flt_def)
qed

theorem rank_conformations_selects_minimum_witness:
  "\<exists>result e. rank_conformations DEFAULT_CONFIG tie_data REQUIRED_METRICS Map.empty = Inr result
      \<and> filter (\<lambda>e. conf_id e = (1, 1)) result = [e]
      \<and> best_protein e = ''A''
      \<and> total_score e = Some (1/2) \<and> docking_score e = Some 0 \<and> energy_score e = Some 1
      \<and> raw_data e = tie_row 1 ''A'' 0 1"
proof -
  let ?rows = "filter (\<lambda>r. conformation_id r = (1, 1)) tie_data"
  let ?cand = "\<lambda>p. pair_of_row DEFAULT_CONFIG REQUIRED_METRICS Map.empty
                       (last (filter (\<lambda>r. protein_name r = p) ?rows))"
  have c: "(1, 1) \<in> conformation_id ` set tie_data"
    by (simp add: conformation_id_def tie_data_def)
  have rows: "?rows = [tie_row 1 ''A'' 0 0, tie_row 1 ''B'' 1 0, tie_row 1 ''C'' 1 1,
                       tie_row 1 ''A'' 0 1]"
    by (simp add: tie_data_def conformation_id_def)
  have proteins: "first_seen (map protein_name ?rows) = [''A'', ''B'', ''C'']"
    unfolding rows by simp
  have candA: "?cand ''A'' = \<lparr>total_score = Some (1/2), docking_score = Some 0,
                  energy_score = Some 1, raw_data = tie_row 1 ''A'' 0 1\<rparr>"
    unfolding rows by (simp add: tie_cand)
  have candB: "?cand ''B'' = \<lparr>total_score = Some (1/2), docking_score = Some 1,
                  energy_score = Some 0, raw_data = tie_row 1 ''B'' 1 0\<rparr>"
    unfolding rows by (simp add: tie_cand)
  have candC: "?cand ''C'' = \<lparr>total_score = Some 1, docking_score = Some 1,
                  energy_score = Some 1, raw_data = tie_row 1 ''C'' 1 1\<rparr>"
    unfolding rows by (simp add: tie_cand)
  have lastA: "last (filter (\<lambda>r. protein_name r = ''A'') ?rows) = tie_row 1 ''A'' 0 1"
    unfolding rows by simp
  from rank_conformations_selects_minimum [OF tie_ranking c, unfolded Let_def proteins]
  obtain e where f: "filter (\<lambda>e. conf_id e = (1, 1))
          [\<lparr>total_score = Some 0, docking_score = Some 0, energy_score = Some 0,
            raw_data = tie_row 2 ''C'' 0 0, conf_id = (2, 1), best_protein = ''C''\<rparr>,
          \<lparr>total_score = Some (1/2), docking_score = Some 0, energy_score = Some 1,
            raw_data = tie_row 1 ''A'' 0 1, conf_id = (1, 1), best_protein = ''A''\<rparr>] = [e]"
    and mem: "best_protein e \<in> set [''A'', ''B'', ''C'']"
    and t: "total_score e = total_score (?cand (best_protein e))"
    and d: "docking_score e = docking_score (?cand (best_protein e))"
    and en: "energy_score e = energy_score (?cand (best_protein e))"
    and r: "raw_data e = last (filter (\<lambda>r. protein_name r = best_protein e) ?rows)"
    and m: "(\<forall>p\<in>set [''A'', ''B'', ''C'']. total_score (?cand p) \<noteq> None) \<longrightarrow>
              (\<forall>p\<in>set [''A'', ''B'', ''C'']. num (total_score e) \<le> num (total_score (?cand p)))
              \<and> best_protein e = hd (filter (\<lambda>p. total_score (?cand p) = total_score e)
                                         [''A'', ''B'', ''C''])"
    by blast
  have nn: "\<forall>p\<in>set [''A'', ''B'', ''C'']. total_score (?cand p) \<noteq> None"
    by (simp only: list.set ball_simps candA candB candC) simp
  from m nn have lo: "num (total_score e) \<le> num (total_score (?cand ''A''))"
    and hd: "best_protein e = hd (filter (\<lambda>p. total_score (?cand p) = total_score e)
                                         [''A'', ''B'', ''C''])"
    by (simp_all only: list.set ball_simps simp_thms)
  from lo have lo': "num (total_score e) \<le> 1/2"
    by (simp only: candA) (simp add: num_def)
  from mem have cases: "best_protein e = ''A'' \<or> best_protein e = ''B'' \<or> best_protein e = ''C''"
    by simp
  have te: "total_score e = Some (1/2)"
  proof -
    { assume b: "best_protein e = ''A''"
      have ?thesis using t unfolding b by (simp only: candA) simp }
    moreover
    { assume b: "best_protein e = ''B''"
      have ?thesis using t unfolding b by (simp only: candB) simp }
    moreover
    { assume b: "best_protein e = ''C''"
      have "total_score e = Some 1" using t unfolding b by (simp only: candC) simp
      with lo' have ?thesis by (simp add: num_def) }
    ultimately show ?thesis using cases by blast
  qed
  have bp: "best_protein e = ''A''"
    using hd unfolding te by (simp only: filter.simps candA candB candC) simp
  have de: "docking_score e = Some 0" "energy_score e = Some 1"
    using d en unfolding bp by (simp_all only: candA) simp_all
  have re: "raw_data e = tie_row 1 ''A'' 0 1"
    using r unfolding bp by (simp only: lastA)
  from tie_ranking f te bp de re show ?thesis by blast
qed

theorem duplicate_rows_counterexample:
  "rank_conformations DEFAULT_CONFIG [dup_row_first, dup_row_second] REQUIRED_METRICS Map.empty
   = Inr [\<lparr>total_score = Some 1, docking_score = Some 1, energy_score = Some 1,
            raw_data = dup_row_second, conf_id = (1, 1), best_protein = ''A''\<rparr>]
   \<and> calculate_composite_score dup_row_first REQUIRED_METRICS Map.empty (2/5) (2/5) (1/5)
     = Inr (Some (1/2), Some 0, Some 1)
   \<and> (title dup_row_first, lignum dup_row_first) = (1, 1)
   \<and> (1/2 :: real) < 1"
  by (simp add: dup_ranking dup_scores dup_ids)

section \<open>A NaN total score in the rankings\<close>

lemma nan_normalize_metric:
  "normalize_metric [Some 2, Some 1] ''min-max'' = [Some 1, Some 0]"
  "normalize_metric [Some 5] ''min-max'' = [Some 0]"
  by (subst normalize_metric.simps, simp add: fillna_def fsub_def fdiv_def degenerate_def)+

lemma nan_group_keys: "group_keys nan_data = [''A'', ''C'', ''B'']"
  by (simp add: group_keys_def nan_data_def nan_row_def)

lemma nan_group_index:
  "group_index nan_data ''A'' = [0, 3]" "group_index nan_data ''C'' = [1]"
  "group_index nan_data ''B'' = [2]"
  by (simp_all add: group_index_def nan_data_def nan_row_def upt_rec numeral_2_eq_2 numeral_3_eq_3)

lemma nan_has_column: "has_column m nan_data = (m = ''r_i_docking_score'')"
  by (auto simp: has_column_def nan_data_def nan_row_def col_in_row_iff split: if_splits)

lemma nan_column_other: "m \<noteq> ''r_i_docking_score'' \<Longrightarrow> normalize_column nan_data method m nd = nd"
  by (simp add: normalize_column_def nan_has_column)

lemma nan_group_A:
  "normalize_group nan_data ''min-max'' ''r_i_docking_score'' ''A'' nan_data =
     [nan_normalized_row 1 ''A'' (Some 2) (Some 1), nan_normalized_row 2 ''C'' None None,
      nan_normalized_row 3 ''B'' (Some 5) None, nan_normalized_row 3 ''A'' (Some 1) (Some 0)]"
  unfolding normalize_group_def nan_group_index Let_def
  by (simp add: nan_data_def nan_row_def nan_normalized_row_def cell_def nan_normalize_metric
        loc_assign_def col_in_row_iff numeral_2_eq_2 numeral_3_eq_3)

lemma nan_group_C: "normalize_group nan_data method ''r_i_docking_score'' ''C'' nd = nd"
  unfolding normalize_group_def nan_group_index Let_def
  by (simp add: nan_data_def nan_row_def cell_def)

lemma nan_group_B:
  "normalize_group nan_data ''min-max'' ''r_i_docking_score'' ''B''
     [nan_normalized_row 1 ''A'' (Some 2) (Some 1), nan_normalized_row 2 ''C'' None None,
      nan_normalized_row 3 ''B'' (Some 5) None, nan_normalized_row 3 ''A'' (Some 1) (Some 0)]
   = nan_normalized"
  unfolding normalize_group_def nan_group_index Let_def
  by (simp add: nan_data_def nan_row_def nan_normalized_row_def nan_normalized_def cell_def
        nan_normalize_metric loc_assign_def col_in_row_iff numeral_2_eq_2 numeral_3_eq_3)

lemma nan_column_docking:
  "normalize_column nan_data ''min-max'' ''r_i_docking_score'' nan_data = nan_normalized"
  by (simp add: normalize_column_def nan_has_column nan_group_keys nan_group_A nan_group_C nan_group_B)

lemma nan_normalize_data: "normalize_data nan_data ''min-max'' = nan_normalized"
proof -
  have ne: "nan_data \<noteq> []" by (simp add: nan_data_def)
  show ?thesis
    unfolding normalize_data_def REQUIRED_METRICS_def OPTIONAL_METRICS_def
    by (simp add: ne nan_column_docking nan_column_other)
qed

lemma nan_row_sel [simp]:
  "title (nan_normalized_row t p v n) = t" "lignum (nan_normalized_row t p v n) = 1"
  "protein_name (nan_normalized_row t p v n) = p"
  by (simp_all add: nan_normalized_row_def)

lemma nan_score:
  "calculate_composite_score (nan_normalized_row t p v n) REQUIRED_METRICS Map.empty (2/5) (2/5) (1/5)
     = Inr (fadd (fmul (Some (1/2)) n) (Some (1/2)), n, Some 1)"
  by (cases n) (simp_all add: nan_normalized_row_def
        calculate_composite_score_def calculate_optional_score_def
        calculate_docking_score_def calculate_energy_score_def calculate_weighted_score_def
        REQUIRED_METRICS_def OPTIONAL_METRICS_def DOCKING_METRICS_def ENERGY_METRICS_def
        col_in_row_iff get_normalized_column_name_def get_normalized_value_def weight_get_def
        fadd_def fmul_def fdiv_def Let_def)

lemma nan_pairs:
  "score_conformation_protein_pairs DEFAULT_CONFIG nan_normalized REQUIRED_METRICS Map.empty
   = Inr [((1, 1), [(''A'', \<lparr>total_score = Some 1, docking_score = Some 1, energy_score = Some 1,
                             raw_data = nan_normalized_row 1 ''A'' (Some 2) (Some 1)\<rparr>)]),
          ((2, 1), [(''C'', \<lparr>total_score = None, docking_score = None, energy_score = Some 1,
                             raw_data = nan_normalized_row 2 ''C'' None None\<rparr>)]),
          ((3, 1), [(''B'', \<lparr>total_score = Some (1/2), docking_score = Some 0, energy_score = Some 1,
                             raw_data = nan_normalized_row 3 ''B'' (Some 5) (Some 0)\<rparr>),
                    (''A'', \<lparr>total_score = Some (1/2), docking_score = Some 0, energy_score = Some 1,
                             raw_data = nan_normalized_row 3 ''A'' (Some 1) (Some 0)\<rparr>)])]"
  by (simp add: score_conformation_protein_pairs_def nan_normalized_def default_weights nan_score
        Let_def fadd_def fmul_def)

lemma nan_rank_conformations:
  "rank_conformations DEFAULT_CONFIG nan_normalized REQUIRED_METRICS Map.empty
     = Inr nan_conformation_ranking"
proof -
  have ne: "nan_normalized \<noteq> []" by (simp add: nan_normalized_def)
  show ?thesis
    by (simp add: rank_conformations_def ne nan_pairs py_min_def make_entry_def py_sort_def flt_def
          nan_conformation_ranking_def)
qed

lemma nan_rank_proteins: "rank_proteins nan_conformation_ranking = nan_protein_ranking"
  by (simp add: rank_proteins_def nan_conformation_ranking_def nan_protein_ranking_def
        make_protein_entry_def np_mean_def fadd_def fdiv_def py_sort_def protein_key_def
        tuple_lt_def flt_def)

text \<open>
  Claim C8, at the table \<open>nan_data\<close>. The only row of group C has no docking score, the
  groups A and B have values, so normalization leaves NaN in the normalized column of
  that row (the defect shown for claim C2) and its total score is NaN. Conformation
  (1, 1) is won by A with the total 1.0, (2, 1) by C with NaN, and (3, 1) by B with 0.5.
  Every comparison with NaN is false, so both sorts find no element less than its
  predecessor and leave their lists as they are: \<open>rank_proteins\<close> returns A (one win,
  mean 1.0), C (one win, mean NaN), B (one win, mean 0.5). With equal win counts, A stands
  before B although its mean total score is the greater: the protein ranking is not
  sorted by win count and mean total score, which is what the claim and the comment of
  the source at the sort say.
\<close>

theorem rank_proteins_unsorted_with_nan:
  "rank_conformations DEFAULT_CONFIG (normalize_data nan_data ''min-max'') REQUIRED_METRICS Map.empty
     = Inr nan_conformation_ranking
   \<and> rank_proteins nan_conformation_ranking = nan_protein_ranking
   \<and> map (\<lambda>x. (ranked_protein_name x, best_count x, avg_total_score x)) nan_protein_ranking
       = [(''A'', 1, Some 1), (''C'', 1, None), (''B'', 1, Some (1/2))]
   \<and> \<not> sorted_wrt protein_le (rank_proteins nan_conformation_ranking)
   \<and> \<not> protein_le (rank_proteins nan_conformation_ranking ! 0) (rank_proteins nan_conformation_ranking ! 2)"
  unfolding nan_normalize_data nan_rank_conformations nan_rank_proteins
  by (simp add: nan_protein_ranking_def protein_le_def)

end
